theory Spec2Isabelle
  imports Complex_Main "HOL-Library.AList"
begin

section \<open>The cache subsystem of \<open>utils/cache.py\<close>\<close>

text \<open>
  The development follows \<open>src/my_python_project/utils/cache.py\<close>: the in-memory
  cache (\<open>MemoryCache\<close>), the file cache (\<open>FileCache\<close>), the cascade
  (\<open>MultiLevelCache\<close>), the \<open>CacheManager\<close> and the \<open>cache_result\<close> decorator.

  Conventions of the embedding.
  \<^item> A Python value is a \<open>'v pyval\<close>: \<open>PyNone\<close> is Python's \<open>None\<close>, \<open>Val x\<close> any other
    value. \<open>get\<close> is typed \<open>Optional[T]\<close> in the source, so its result is a \<open>'v pyval\<close>
    and the "absent" signal is \<open>PyNone\<close>.
  \<^item> A Python \<open>dict\<close> is an association list in insertion order: \<open>AList.update\<close> overwrites
    a present key in place and appends a new one, \<open>AList.delete\<close> removes a key,
    \<open>map_of\<close> looks a key up. Order matters for \<open>min\<close> over the access times and for \<open>keys\<close>.
  \<^item> \<open>time.time()\<close> is an explicit argument \<open>now\<close> of every operation, in seconds; all
    clock reads inside one call see the same instant.
  \<^item> Mutation is state passing: an operation returns its result and the new object state.
    A raised exception is \<open>Inl e\<close>; the state returned with it carries the writes done
    before the raise.
  \<^item> The reentrant locks serialise the operations of one object; the embedding is the
    sequential behaviour of one operation at a time.
\<close>

type_synonym key = string
type_synonym time = real

datatype 'v pyval = PyNone | Val 'v

datatype cache_exception = Exception | CacheError | CacheKeyError | CacheSerializationError

text \<open>
  The \<open>ttl\<close> argument of \<open>MemoryCache.set\<close>: the default is the private sentinel
  \<open>_UNSET\<close>; an explicit argument is \<open>None\<close> or a number of seconds.
\<close>

datatype ttl_arg = UNSET | Ttl "int option"

text \<open>The dict \<open>{'value': ..., 'created_at': ..., 'expires_at': ...}\<close> stored per key.\<close>

record 'a cache_item =
  item_value :: 'a
  created_at :: time
  expires_at :: "time option"

subsection \<open>MemoryCache\<close>

record 'v MemoryCache =
  max_size :: int
  default_ttl :: "int option"
  cache :: "(key \<times> 'v pyval cache_item) list"
  access_times :: "(key \<times> time) list"

text \<open>
  \<open>MemoryCache.__init__\<close> stores its arguments and two empty dicts. It has no check of
  \<open>max_size\<close> and no \<open>raise\<close>: the result is always \<open>Inr\<close>.
\<close>

definition MemoryCache_init :: "int \<Rightarrow> int option \<Rightarrow> cache_exception + 'v MemoryCache" where
  "MemoryCache_init m d = Inr \<lparr>max_size = m, default_ttl = d, cache = [], access_times = []\<rparr>"

text \<open>\<open>_is_expired\<close>: \<open>expires_at is not None and time.time() > expires_at\<close>.\<close>

definition is_expired :: "time \<Rightarrow> ('a, 'z) cache_item_scheme \<Rightarrow> bool" where
  "is_expired now item = (case expires_at item of None \<Rightarrow> False | Some e \<Rightarrow> now > e)"

text \<open>\<open>delete\<close>: only a key of \<open>_cache\<close> is removed, from both dicts.\<close>

definition MemoryCache_delete :: "'v MemoryCache \<Rightarrow> key \<Rightarrow> bool \<times> 'v MemoryCache" where
  "MemoryCache_delete c k =
     (case map_of (cache c) k of
        Some item \<Rightarrow>
          (True, c\<lparr>cache := AList.delete k (cache c),
                   access_times := AList.delete k (access_times c)\<rparr>)
      | None \<Rightarrow> (False, c))"

definition MemoryCache_get :: "time \<Rightarrow> 'v MemoryCache \<Rightarrow> key \<Rightarrow> 'v pyval \<times> 'v MemoryCache" where
  "MemoryCache_get now c k =
     (case map_of (cache c) k of
        None \<Rightarrow> (PyNone, c)
      | Some item \<Rightarrow>
          if is_expired now item then (PyNone, snd (MemoryCache_delete c k))
          else (item_value item, c\<lparr>access_times := AList.update k now (access_times c)\<rparr>))"

text \<open>
  Python's \<open>min(keys, key=f)\<close> returns the first key, in iteration order, whose \<open>f\<close> is
  minimal: a later key replaces the best one so far only when strictly smaller.
\<close>

fun py_min :: "key \<times> time \<Rightarrow> (key \<times> time) list \<Rightarrow> key" where
  "py_min best [] = fst best"
| "py_min best (p # ps) = (if snd p < snd best then py_min p ps else py_min best ps)"

definition evict_lru :: "'v MemoryCache \<Rightarrow> 'v MemoryCache" where
  "evict_lru c =
     (case access_times c of
        [] \<Rightarrow> c
      | p # ps \<Rightarrow> snd (MemoryCache_delete c (py_min p ps)))"

definition MemoryCache_set ::
  "time \<Rightarrow> 'v MemoryCache \<Rightarrow> key \<Rightarrow> 'v pyval \<Rightarrow> ttl_arg \<Rightarrow> 'v MemoryCache" where
  "MemoryCache_set now c k v ttl =
     (let c1 = (if int (length (cache c)) \<ge> max_size c \<and> map_of (cache c) k = None
                then evict_lru c else c);
          exp = (case ttl of
                   UNSET \<Rightarrow> (case default_ttl c1 of
                               None \<Rightarrow> None
                             | Some d \<Rightarrow> Some (now + of_int d))
                 | Ttl None \<Rightarrow> None
                 | Ttl (Some n) \<Rightarrow> Some (now + of_int n))
      in c1\<lparr>cache := AList.update k
                 \<lparr>item_value = v, created_at = now, expires_at = exp\<rparr> (cache c1),
             access_times := AList.update k now (access_times c1)\<rparr>)"

definition MemoryCache_exists :: "time \<Rightarrow> 'v MemoryCache \<Rightarrow> key \<Rightarrow> bool \<times> 'v MemoryCache" where
  "MemoryCache_exists now c k =
     (case map_of (cache c) k of
        None \<Rightarrow> (False, c)
      | Some item \<Rightarrow>
          if is_expired now item then (False, snd (MemoryCache_delete c k))
          else (True, c))"

definition MemoryCache_clear :: "'v MemoryCache \<Rightarrow> 'v MemoryCache" where
  "MemoryCache_clear c = c\<lparr>cache := [], access_times := []\<rparr>"

text \<open>
  \<open>keys\<close>: collect the expired keys in one pass, delete each, return the keys left.
\<close>

definition MemoryCache_keys :: "time \<Rightarrow> 'v MemoryCache \<Rightarrow> key list \<times> 'v MemoryCache" where
  "MemoryCache_keys now c =
     (let expired_keys = map fst (filter (\<lambda>(k, item). is_expired now item) (cache c));
          c' = fold (\<lambda>k s. snd (MemoryCache_delete s k)) expired_keys c
      in (map fst (cache c'), c'))"

text \<open>A call of the public interface, and a sequence of calls with the clock read by each.\<close>

datatype 'v cache_op =
    Get key
  | Set key "'v pyval" ttl_arg
  | Delete key
  | Exists key
  | Clear
  | Keys

datatype 'v cache_result =
    Returned "'v pyval"
  | Done
  | Answer bool
  | KeyList "key list"

fun MemoryCache_call ::
  "time \<Rightarrow> 'v cache_op \<Rightarrow> 'v MemoryCache \<Rightarrow> 'v cache_result \<times> 'v MemoryCache" where
  "MemoryCache_call now (Get k) c = (case MemoryCache_get now c k of (v, c') \<Rightarrow> (Returned v, c'))"
| "MemoryCache_call now (Set k v ttl) c = (Done, MemoryCache_set now c k v ttl)"
| "MemoryCache_call now (Delete k) c = (case MemoryCache_delete c k of (b, c') \<Rightarrow> (Answer b, c'))"
| "MemoryCache_call now (Exists k) c =
     (case MemoryCache_exists now c k of (b, c') \<Rightarrow> (Answer b, c'))"
| "MemoryCache_call now Clear c = (Done, MemoryCache_clear c)"
| "MemoryCache_call now Keys c = (case MemoryCache_keys now c of (ks, c') \<Rightarrow> (KeyList ks, c'))"

fun MemoryCache_run ::
  "'v MemoryCache \<Rightarrow> (time \<times> 'v cache_op) list \<Rightarrow> 'v cache_result list \<times> 'v MemoryCache" where
  "MemoryCache_run c [] = ([], c)"
| "MemoryCache_run c ((now, op) # ops) =
     (case MemoryCache_call now op c of
        (r, c') \<Rightarrow> (case MemoryCache_run c' ops of (rs, c'') \<Rightarrow> (r # rs, c'')))"

subsection \<open>FileCache\<close>

text \<open>
  A file of the cache directory is either unreadable for \<open>pickle.load\<close> (\<open>Corrupt\<close>: the
  load, or the access to the fields of its result, raises) or the pickled dict
  \<open>{'value': bytes, 'created_at': ..., 'expires_at': ...}\<close>. The directory is the list of
  its \<open>*.cache\<close> files by stem, in the order \<open>glob\<close> lists them.
\<close>

datatype 'b cache_file = Corrupt | Pickled "'b cache_item"

type_synonym 'b directory = "(string \<times> 'b cache_file) list"

text \<open>
  \<open>pickle\<close>, \<open>json\<close> and \<open>hashlib.md5\<close> are library code: the object carries
  \<open>_serialize\<close> and \<open>_deserialize\<close> of its serializer (\<open>Inl\<close> when they raise) and the
  function \<open>key \<mapsto> md5(key.encode()).hexdigest()\<close> as parameters. \<open>cache_dir\<close> is the
  content of the directory the object works on. Writing and unlinking a file succeed.
\<close>

record ('v, 'b) FileCache =
  cache_dir :: "'b directory"
  file_default_ttl :: "int option"
  serialize :: "'v pyval \<Rightarrow> cache_exception + 'b"
  deserialize :: "'b \<Rightarrow> cache_exception + 'v pyval"
  md5_hexdigest :: "key \<Rightarrow> string"

text \<open>\<open>_get_cache_file\<close>: the stem of the file of a key is the digest of the key.\<close>

definition get_cache_file :: "('v, 'b) FileCache \<Rightarrow> key \<Rightarrow> string" where
  "get_cache_file fc k = md5_hexdigest fc k"

definition FileCache_get ::
  "time \<Rightarrow> ('v, 'b) FileCache \<Rightarrow> key \<Rightarrow> (cache_exception + 'v pyval) \<times> ('v, 'b) FileCache" where
  "FileCache_get now fc k =
     (let cache_file = get_cache_file fc k;
          unlinked = fc\<lparr>cache_dir := AList.delete cache_file (cache_dir fc)\<rparr>
      in case map_of (cache_dir fc) cache_file of
           None \<Rightarrow> (Inr PyNone, fc)
         | Some Corrupt \<Rightarrow> (Inl CacheSerializationError, unlinked)
         | Some (Pickled cache_data) \<Rightarrow>
             if is_expired now cache_data then (Inr PyNone, unlinked)
             else (case deserialize fc (item_value cache_data) of
                     Inr v \<Rightarrow> (Inr v, fc)
                   | Inl e \<Rightarrow> (Inl CacheSerializationError, unlinked)))"

text \<open>
  \<open>FileCache.set\<close>: \<open>ttl\<close> is \<open>Optional[int]\<close> with default \<open>None\<close>; a \<open>None\<close> falls
  through to \<open>default_ttl\<close>. \<open>_serialize\<close> is called outside the \<open>try\<close>: what it raises
  goes to the caller unchanged.
\<close>

definition FileCache_set ::
  "time \<Rightarrow> ('v, 'b) FileCache \<Rightarrow> key \<Rightarrow> 'v pyval \<Rightarrow> int option
     \<Rightarrow> (cache_exception + unit) \<times> ('v, 'b) FileCache" where
  "FileCache_set now fc k v ttl =
     (let cache_file = get_cache_file fc k;
          exp = (case ttl of
                   Some n \<Rightarrow> Some (now + of_int n)
                 | None \<Rightarrow> (case file_default_ttl fc of
                              Some d \<Rightarrow> Some (now + of_int d)
                            | None \<Rightarrow> None))
      in case serialize fc v of
           Inl e \<Rightarrow> (Inl e, fc)
         | Inr bytes \<Rightarrow>
             (Inr (), fc\<lparr>cache_dir := AList.update cache_file
                 (Pickled \<lparr>item_value = bytes, created_at = now, expires_at = exp\<rparr>)
                 (cache_dir fc)\<rparr>))"

definition FileCache_delete :: "('v, 'b) FileCache \<Rightarrow> key \<Rightarrow> bool \<times> ('v, 'b) FileCache" where
  "FileCache_delete fc k =
     (let cache_file = get_cache_file fc k
      in case map_of (cache_dir fc) cache_file of
           Some f \<Rightarrow> (True, fc\<lparr>cache_dir := AList.delete cache_file (cache_dir fc)\<rparr>)
         | None \<Rightarrow> (False, fc))"

text \<open>\<open>exists\<close>: \<open>self.get(key) is not None\<close>.\<close>

definition FileCache_exists ::
  "time \<Rightarrow> ('v, 'b) FileCache \<Rightarrow> key \<Rightarrow> (cache_exception + bool) \<times> ('v, 'b) FileCache" where
  "FileCache_exists now fc k =
     (case FileCache_get now fc k of
        (Inl e, fc') \<Rightarrow> (Inl e, fc')
      | (Inr v, fc') \<Rightarrow> (Inr (v \<noteq> PyNone), fc'))"

definition FileCache_clear :: "('v, 'b) FileCache \<Rightarrow> ('v, 'b) FileCache" where
  "FileCache_clear fc = fc\<lparr>cache_dir := []\<rparr>"

text \<open>
  \<open>keys\<close>: for every file listed by \<open>glob('*.cache')\<close>, \<open>key = cache_file.stem\<close> and the
  stem is kept when \<open>self.exists(key)\<close>. An exception of \<open>exists\<close> ends the loop.
\<close>

fun FileCache_keys_loop ::
  "time \<Rightarrow> string list \<Rightarrow> key list \<Rightarrow> ('v, 'b) FileCache
     \<Rightarrow> (cache_exception + key list) \<times> ('v, 'b) FileCache" where
  "FileCache_keys_loop now [] keys fc = (Inr keys, fc)"
| "FileCache_keys_loop now (stem # stems) keys fc =
     (case FileCache_exists now fc stem of
        (Inl e, fc') \<Rightarrow> (Inl e, fc')
      | (Inr b, fc') \<Rightarrow>
          FileCache_keys_loop now stems (if b then keys @ [stem] else keys) fc')"

definition FileCache_keys ::
  "time \<Rightarrow> ('v, 'b) FileCache \<Rightarrow> (cache_exception + key list) \<times> ('v, 'b) FileCache" where
  "FileCache_keys now fc = FileCache_keys_loop now (map fst (cache_dir fc)) [] fc"

subsection \<open>Backends behind the common interface\<close>

text \<open>
  A tier is one of the two storing backends of the module, or an object whose every
  operation raises (the tests build one with \<open>Mock\<close> and \<open>side_effect\<close>). The functions
  \<open>tier_get\<close>, \<open>tier_set\<close>, \<open>tier_delete\<close>, \<open>tier_exists\<close> are the dynamic dispatch of
  \<open>cache.get(...)\<close> and its siblings. Each tier owns its storage: two tiers never share
  a dict or a directory.
\<close>

datatype ('v, 'b) tier =
    Memory "'v MemoryCache"
  | File "('v, 'b) FileCache"
  | Failing

text \<open>An omitted \<open>ttl\<close> is the parameter's default: \<open>None\<close> wherever the type is \<open>Optional[int]\<close>.\<close>

definition optional_ttl :: "ttl_arg \<Rightarrow> int option" where
  "optional_ttl ttl = (case ttl of UNSET \<Rightarrow> None | Ttl t \<Rightarrow> t)"

fun tier_get ::
  "time \<Rightarrow> ('v, 'b) tier \<Rightarrow> key \<Rightarrow> (cache_exception + 'v pyval) \<times> ('v, 'b) tier" where
  "tier_get now (Memory c) k = (case MemoryCache_get now c k of (v, c') \<Rightarrow> (Inr v, Memory c'))"
| "tier_get now (File fc) k = (case FileCache_get now fc k of (r, fc') \<Rightarrow> (r, File fc'))"
| "tier_get now Failing k = (Inl Exception, Failing)"

fun tier_set ::
  "time \<Rightarrow> ('v, 'b) tier \<Rightarrow> key \<Rightarrow> 'v pyval \<Rightarrow> ttl_arg
     \<Rightarrow> (cache_exception + unit) \<times> ('v, 'b) tier" where
  "tier_set now (Memory c) k v ttl = (Inr (), Memory (MemoryCache_set now c k v ttl))"
| "tier_set now (File fc) k v ttl =
     (case FileCache_set now fc k v (optional_ttl ttl) of (r, fc') \<Rightarrow> (r, File fc'))"
| "tier_set now Failing k v ttl = (Inl Exception, Failing)"

fun tier_delete :: "('v, 'b) tier \<Rightarrow> key \<Rightarrow> (cache_exception + bool) \<times> ('v, 'b) tier" where
  "tier_delete (Memory c) k = (case MemoryCache_delete c k of (b, c') \<Rightarrow> (Inr b, Memory c'))"
| "tier_delete (File fc) k = (case FileCache_delete fc k of (b, fc') \<Rightarrow> (Inr b, File fc'))"
| "tier_delete Failing k = (Inl Exception, Failing)"

fun tier_exists ::
  "time \<Rightarrow> ('v, 'b) tier \<Rightarrow> key \<Rightarrow> (cache_exception + bool) \<times> ('v, 'b) tier" where
  "tier_exists now (Memory c) k =
     (case MemoryCache_exists now c k of (b, c') \<Rightarrow> (Inr b, Memory c'))"
| "tier_exists now (File fc) k = (case FileCache_exists now fc k of (r, fc') \<Rightarrow> (r, File fc'))"
| "tier_exists now Failing k = (Inl Exception, Failing)"

subsection \<open>MultiLevelCache\<close>

text \<open>
  The object is its list \<open>caches\<close>. \<open>get\<close> walks the list; \<open>higher\<close> holds the tiers
  already passed (indices \<open>0..i-1\<close>), \<open>c # lower\<close> the tiers from index \<open>i\<close> on. A tier whose
  \<open>get\<close> raises, or returns \<open>None\<close>, is passed over. On a hit the value is written to
  every higher tier with \<open>set(key, value)\<close> (no \<open>ttl\<close> argument), exceptions ignored.
  No exception leaves the loop, so the result is a plain value.
\<close>

fun MultiLevelCache_get_from ::
  "time \<Rightarrow> ('v, 'b) tier list \<Rightarrow> ('v, 'b) tier list \<Rightarrow> key
     \<Rightarrow> 'v pyval \<times> ('v, 'b) tier list" where
  "MultiLevelCache_get_from now higher [] k = (PyNone, higher)"
| "MultiLevelCache_get_from now higher (c # lower) k =
     (case tier_get now c k of
        (Inl e, c') \<Rightarrow> MultiLevelCache_get_from now (higher @ [c']) lower k
      | (Inr v, c') \<Rightarrow>
          if v \<noteq> PyNone
          then (v, map (\<lambda>h. snd (tier_set now h k v UNSET)) higher @ c' # lower)
          else MultiLevelCache_get_from now (higher @ [c']) lower k)"

definition MultiLevelCache_get ::
  "time \<Rightarrow> ('v, 'b) tier list \<Rightarrow> key \<Rightarrow> 'v pyval \<times> ('v, 'b) tier list" where
  "MultiLevelCache_get now caches k = MultiLevelCache_get_from now [] caches k"

text \<open>\<open>set\<close> passes its own \<open>ttl\<close> (default \<open>None\<close>) on to every tier as an explicit argument.\<close>

definition MultiLevelCache_set ::
  "time \<Rightarrow> ('v, 'b) tier list \<Rightarrow> key \<Rightarrow> 'v pyval \<Rightarrow> int option \<Rightarrow> ('v, 'b) tier list" where
  "MultiLevelCache_set now caches k v ttl =
     map (\<lambda>c. snd (tier_set now c k v (Ttl ttl))) caches"

fun MultiLevelCache_delete_loop ::
  "bool \<Rightarrow> ('v, 'b) tier list \<Rightarrow> key \<Rightarrow> bool \<times> ('v, 'b) tier list" where
  "MultiLevelCache_delete_loop deleted [] k = (deleted, [])"
| "MultiLevelCache_delete_loop deleted (c # cs) k =
     (case tier_delete c k of
        (r, c') \<Rightarrow>
          (case MultiLevelCache_delete_loop (if r = Inr True then True else deleted) cs k of
             (d, cs') \<Rightarrow> (d, c' # cs')))"

definition MultiLevelCache_delete ::
  "('v, 'b) tier list \<Rightarrow> key \<Rightarrow> bool \<times> ('v, 'b) tier list" where
  "MultiLevelCache_delete caches k = MultiLevelCache_delete_loop False caches k"

definition MultiLevelCache_exists ::
  "time \<Rightarrow> ('v, 'b) tier list \<Rightarrow> key \<Rightarrow> bool \<times> ('v, 'b) tier list" where
  "MultiLevelCache_exists now caches k =
     (case MultiLevelCache_get now caches k of (v, caches') \<Rightarrow> (v \<noteq> PyNone, caches'))"

subsection \<open>CacheManager\<close>

text \<open>
  A backend handed to the manager is a single tier or a \<open>MultiLevelCache\<close> over tiers.
  The manager holds its backends by value: after an operation the changed backend is put
  back under the name it was found under (\<open>put_backend\<close>), which is what mutation of the
  object does when every name holds an object of its own.
\<close>

datatype ('v, 'b) backend =
    Single "('v, 'b) tier"
  | MultiLevel "('v, 'b) tier list"

fun backend_get ::
  "time \<Rightarrow> ('v, 'b) backend \<Rightarrow> key \<Rightarrow> (cache_exception + 'v pyval) \<times> ('v, 'b) backend" where
  "backend_get now (Single c) k = (case tier_get now c k of (r, c') \<Rightarrow> (r, Single c'))"
| "backend_get now (MultiLevel cs) k =
     (case MultiLevelCache_get now cs k of (v, cs') \<Rightarrow> (Inr v, MultiLevel cs'))"

fun backend_set ::
  "time \<Rightarrow> ('v, 'b) backend \<Rightarrow> key \<Rightarrow> 'v pyval \<Rightarrow> ttl_arg
     \<Rightarrow> (cache_exception + unit) \<times> ('v, 'b) backend" where
  "backend_set now (Single c) k v ttl = (case tier_set now c k v ttl of (r, c') \<Rightarrow> (r, Single c'))"
| "backend_set now (MultiLevel cs) k v ttl =
     (Inr (), MultiLevel (MultiLevelCache_set now cs k v (optional_ttl ttl)))"

fun backend_exists ::
  "time \<Rightarrow> ('v, 'b) backend \<Rightarrow> key \<Rightarrow> (cache_exception + bool) \<times> ('v, 'b) backend" where
  "backend_exists now (Single c) k = (case tier_exists now c k of (r, c') \<Rightarrow> (r, Single c'))"
| "backend_exists now (MultiLevel cs) k =
     (case MultiLevelCache_exists now cs k of (b, cs') \<Rightarrow> (Inr b, MultiLevel cs'))"

fun backend_delete ::
  "('v, 'b) backend \<Rightarrow> key \<Rightarrow> (cache_exception + bool) \<times> ('v, 'b) backend" where
  "backend_delete (Single c) k = (case tier_delete c k of (r, c') \<Rightarrow> (r, Single c'))"
| "backend_delete (MultiLevel cs) k =
     (case MultiLevelCache_delete cs k of (b, cs') \<Rightarrow> (Inr b, MultiLevel cs'))"

record ('v, 'b) CacheManager =
  default_backend :: "('v, 'b) backend"
  backends :: "string \<rightharpoonup> ('v, 'b) backend"
  hits :: int
  misses :: int
  sets :: int
  deletes :: int

definition get_backend ::
  "('v, 'b) CacheManager \<Rightarrow> string option \<Rightarrow> cache_exception + ('v, 'b) backend" where
  "get_backend m name =
     (case name of
        None \<Rightarrow> Inr (default_backend m)
      | Some n \<Rightarrow> (case backends m n of None \<Rightarrow> Inl CacheKeyError | Some b \<Rightarrow> Inr b))"

definition put_backend ::
  "('v, 'b) CacheManager \<Rightarrow> string option \<Rightarrow> ('v, 'b) backend \<Rightarrow> ('v, 'b) CacheManager" where
  "put_backend m name b =
     (case name of
        None \<Rightarrow> m\<lparr>default_backend := b\<rparr>
      | Some n \<Rightarrow> m\<lparr>backends := (backends m)(n \<mapsto> b)\<rparr>)"

text \<open>
  \<open>CacheManager.get\<close>: a value other than \<open>None\<close> counts as a hit, \<open>None\<close> as a miss; any
  exception (of the lookup of the backend or of the backend) counts as a miss and is
  raised again as \<open>CacheError\<close>.
\<close>

definition CacheManager_get ::
  "time \<Rightarrow> ('v, 'b) CacheManager \<Rightarrow> key \<Rightarrow> string option
     \<Rightarrow> (cache_exception + 'v pyval) \<times> ('v, 'b) CacheManager" where
  "CacheManager_get now m k name =
     (case get_backend m name of
        Inl e \<Rightarrow> (Inl CacheError, m\<lparr>misses := misses m + 1\<rparr>)
      | Inr c \<Rightarrow>
          (case backend_get now c k of
             (Inl e, c') \<Rightarrow>
               (Inl CacheError, (put_backend m name c')\<lparr>misses := misses m + 1\<rparr>)
           | (Inr v, c') \<Rightarrow>
               (Inr v,
                if v \<noteq> PyNone then (put_backend m name c')\<lparr>hits := hits m + 1\<rparr>
                else (put_backend m name c')\<lparr>misses := misses m + 1\<rparr>)))"

definition CacheManager_set ::
  "time \<Rightarrow> ('v, 'b) CacheManager \<Rightarrow> key \<Rightarrow> 'v pyval \<Rightarrow> int option \<Rightarrow> string option
     \<Rightarrow> (cache_exception + unit) \<times> ('v, 'b) CacheManager" where
  "CacheManager_set now m k v ttl name =
     (case get_backend m name of
        Inl e \<Rightarrow> (Inl CacheError, m)
      | Inr c \<Rightarrow>
          (case backend_set now c k v (Ttl ttl) of
             (Inl e, c') \<Rightarrow> (Inl CacheError, put_backend m name c')
           | (Inr u, c') \<Rightarrow> (Inr (), (put_backend m name c')\<lparr>sets := sets m + 1\<rparr>)))"

subsection \<open>The decorator \<open>cache_result\<close>\<close>

text \<open>
  \<open>wrapper\<close> of \<open>cache_result(ttl, key_func, backend, cache_manager)(func)\<close>, called
  with \<open>args\<close>. \<open>generate_cache_key\<close> is \<open>_generate_cache_key(func, ...)\<close>, a digest of
  the printed arguments, taken as a parameter. \<open>func\<close> returns a value or raises. The
  lookup reads the clock at \<open>t_get\<close>, the store at \<open>t_set\<close>. The result is what the
  caller gets, whether the call reached \<open>func(*args, **kwargs)\<close>, and the manager after
  the call.
\<close>

definition cache_result ::
  "int option \<Rightarrow> ('a \<Rightarrow> key) option \<Rightarrow> string option \<Rightarrow> ('a \<Rightarrow> key)
     \<Rightarrow> ('a \<Rightarrow> cache_exception + 'v pyval) \<Rightarrow> time \<Rightarrow> time \<Rightarrow> ('v, 'b) CacheManager \<Rightarrow> 'a
     \<Rightarrow> (cache_exception + 'v pyval) \<times> bool \<times> ('v, 'b) CacheManager" where
  "cache_result ttl key_func backend generate_cache_key func t_get t_set manager args =
     (let cache_key = (case key_func of
                         Some kf \<Rightarrow> kf args
                       | None \<Rightarrow> generate_cache_key args);
          looked_up = CacheManager_get t_get manager cache_key backend;
          cached_value = fst looked_up;
          manager1 = snd looked_up
      in if (case cached_value of Inr v \<Rightarrow> v \<noteq> PyNone | Inl e \<Rightarrow> False)
         then (cached_value, False, manager1)
         else (case func args of
                 Inl e \<Rightarrow> (Inl e, True, manager1)
               | Inr result \<Rightarrow>
                   (Inr result, True,
                    snd (CacheManager_set t_set manager1 cache_key result ttl backend))))"

subsection \<open>Predicates used in the theorems\<close>

text \<open>
  The two dicts of a \<open>MemoryCache\<close> hold each key once (they are dicts) and hold the same
  keys; \<open>MemoryCache_inv\<close> adds the bound \<open>len(self._cache) <= self.max_size\<close>.
\<close>

definition MemoryCache_sync :: "'v MemoryCache \<Rightarrow> bool" where
  "MemoryCache_sync c =
     (distinct (map fst (cache c)) \<and> distinct (map fst (access_times c)) \<and>
      fst ` set (cache c) = fst ` set (access_times c))"

definition MemoryCache_inv :: "'v MemoryCache \<Rightarrow> bool" where
  "MemoryCache_inv c = (MemoryCache_sync c \<and> int (length (cache c)) \<le> max_size c)"

text \<open>
  \<open>round_trips fc v\<close>: the serializer of \<open>fc\<close> accepts \<open>v\<close> and gives it back.
  \<open>tier_stores c v\<close>: a \<open>set\<close> of \<open>v\<close> on the tier succeeds and can be read back.
  \<open>tier_default_ttl\<close> reads the attribute \<open>default_ttl\<close>, and
  \<open>within_default_ttl c t0 t1\<close> says that an entry written at \<open>t0\<close> under the default TTL
  of \<open>c\<close> is not yet expired at \<open>t1\<close>. \<open>is_hit r\<close> is the test \<open>value is not None\<close> on
  the outcome \<open>r\<close> of a \<open>get\<close> (an exception is not a hit).
\<close>

definition round_trips :: "('v, 'b) FileCache \<Rightarrow> 'v pyval \<Rightarrow> bool" where
  "round_trips fc v =
     (case serialize fc v of Inr bytes \<Rightarrow> deserialize fc bytes = Inr v | Inl e \<Rightarrow> False)"

fun tier_stores :: "('v, 'b) tier \<Rightarrow> 'v pyval \<Rightarrow> bool" where
  "tier_stores (Memory c) v = True"
| "tier_stores (File fc) v = round_trips fc v"
| "tier_stores Failing v = False"

fun tier_default_ttl :: "('v, 'b) tier \<Rightarrow> int option" where
  "tier_default_ttl (Memory c) = default_ttl c"
| "tier_default_ttl (File fc) = file_default_ttl fc"
| "tier_default_ttl Failing = None"

definition within_default_ttl :: "('v, 'b) tier \<Rightarrow> time \<Rightarrow> time \<Rightarrow> bool" where
  "within_default_ttl c t0 t1 =
     (case tier_default_ttl c of None \<Rightarrow> True | Some d \<Rightarrow> t1 \<le> t0 + of_int d)"

definition is_hit :: "cache_exception + 'v pyval \<Rightarrow> bool" where
  "is_hit r = (case r of Inr v \<Rightarrow> v \<noteq> PyNone | Inl e \<Rightarrow> False)"

text \<open>
  A tier keeps \<open>None\<close> when storing \<open>None\<close> cannot leave an older value readable: always on
  a \<open>MemoryCache\<close>, and on a \<open>FileCache\<close> whose serializer round-trips \<open>None\<close> (\<open>pickle\<close>
  and \<open>json\<close> do).
\<close>

fun tier_keeps_None :: "('v, 'b) tier \<Rightarrow> bool" where
  "tier_keeps_None (Memory c) = True"
| "tier_keeps_None (File fc) = round_trips fc PyNone"
| "tier_keeps_None Failing = True"

fun backend_tiers :: "('v, 'b) backend \<Rightarrow> ('v, 'b) tier list" where
  "backend_tiers (Single c) = [c]"
| "backend_tiers (MultiLevel cs) = cs"

definition backend_keeps_None :: "('v, 'b) backend \<Rightarrow> bool" where
  "backend_keeps_None b = list_all tier_keeps_None (backend_tiers b)"

text \<open>
  A file "cannot be decoded" at the time of a \<open>get\<close> when \<open>pickle.load\<close> fails on it, or
  when its dict is read, is not expired, and \<open>_deserialize\<close> of its \<open>'value'\<close> raises.
\<close>

definition undecodable :: "time \<Rightarrow> ('v, 'b) FileCache \<Rightarrow> 'b cache_file \<Rightarrow> bool" where
  "undecodable now fc f =
     (case f of
        Corrupt \<Rightarrow> True
      | Pickled cache_data \<Rightarrow>
          \<not> is_expired now cache_data \<and> isl (deserialize fc (item_value cache_data)))"

subsection \<open>A concrete FileCache for the examples\<close>

text \<open>
  \<open>md5_sample\<close> is \<open>hashlib.md5(k.encode()).hexdigest()\<close> on the two keys the examples
  hash, \<open>"a"\<close> and the digest of \<open>"a"\<close>; no example hashes another key (the last branch is
  the digest of the empty string). \<open>sample_FileCache dir d\<close> is \<open>FileCache(cache_dir,
  default_ttl=d)\<close> on a directory with the files \<open>dir\<close>, with a serializer that gives
  back what it was given, as \<open>pickle\<close> does on plain values: the bytes of a value are
  modelled by the value.
\<close>

definition md5_sample :: "key \<Rightarrow> string" where
  "md5_sample k =
     (if k = ''a'' then ''0cc175b9c0f1b6a831c399e269772661''
      else if k = ''0cc175b9c0f1b6a831c399e269772661'' then ''d7afde3e7059cd0a0fe09eec4b0008cd''
      else ''d41d8cd98f00b204e9800998ecf8427e'')"

definition sample_FileCache :: "'v pyval directory \<Rightarrow> int option \<Rightarrow> ('v, 'v pyval) FileCache" where
  "sample_FileCache dir d =
     \<lparr>cache_dir = dir, file_default_ttl = d, serialize = Inr, deserialize = Inr,
      md5_hexdigest = md5_sample\<rparr>"

text \<open>
  \<open>fresh_MemoryCache\<close> is \<open>MemoryCache()\<close>; \<open>None_under_a\<close> is that cache after
  \<open>set("a", None)\<close> at time \<open>0\<close>; \<open>sample_manager\<close> is \<open>CacheManager(None_under_a)\<close>.
\<close>

definition fresh_MemoryCache :: "nat MemoryCache" where
  "fresh_MemoryCache = \<lparr>max_size = 1000, default_ttl = None, cache = [], access_times = []\<rparr>"

definition None_under_a :: "(nat, nat pyval) tier" where
  "None_under_a = Memory (MemoryCache_set 0 fresh_MemoryCache ''a'' PyNone UNSET)"

definition sample_manager :: "(nat, nat pyval) CacheManager" where
  "sample_manager =
     \<lparr>default_backend = Single None_under_a, backends = Map.empty,
      hits = 0, misses = 0, sets = 0, deletes = 0\<rparr>"

section \<open>Theorems\<close>

subsection \<open>Construction of a MemoryCache\<close>

text \<open>
  C3 (as stated, refuted): the claim says that constructing a \<open>MemoryCache\<close> with
  \<open>max_size \<le> 0\<close> raises at construction time. The constructor has no check: at
  \<open>max_size = 0\<close> it returns an empty cache and no error.
\<close>

theorem MemoryCache_init_zero_no_error:
  "(MemoryCache_init 0 None :: cache_exception + nat MemoryCache)
     = Inr \<lparr>max_size = 0, default_ttl = None, cache = [], access_times = []\<rparr>"
  by (simp add: MemoryCache_init_def)

text \<open>
  C3 (amended): constructing a \<open>MemoryCache\<close> never raises, whatever the integer
  \<open>max_size\<close> (positive, zero or negative) and whatever \<open>default_ttl\<close>: the result is
  the empty cache holding the two arguments unchanged.
\<close>

theorem MemoryCache_init_never_raises:
  "MemoryCache_init m d = Inr \<lparr>max_size = m, default_ttl = d, cache = [], access_times = []\<rparr>"
  by (simp add: MemoryCache_init_def)

subsection \<open>Association lists as dicts\<close>

lemma keys_delete: "fst ` set (AList.delete k al) = fst ` set al - {k}"
  by (induction al) auto

lemma length_delete_less:
  "k \<in> fst ` set al \<Longrightarrow> length (AList.delete k al) < length al"
proof (induction al)
  case Nil
  then show ?case by simp
next
  case (Cons p ps)
  show ?case
  proof (cases "fst p = k")
    case True
    then show ?thesis
      using length_delete_le[of k ps] by (cases p) simp
  next
    case False
    with Cons.prems have "k \<in> fst ` set ps" by auto
    from Cons.IH[OF this] False show ?thesis by (cases p) simp
  qed
qed

lemma length_update:
  "length (AList.update k v al) = (if k \<in> fst ` set al then length al else Suc (length al))"
  by (induction al) auto

lemma py_min_in: "py_min p ps \<in> fst ` set (p # ps)"
  by (induction ps arbitrary: p) auto

lemma map_of_None_iff: "map_of al k = None \<longleftrightarrow> k \<notin> fst ` set al"
  by (simp add: map_of_eq_None_iff)

lemma sync_delete: "MemoryCache_sync c \<Longrightarrow> MemoryCache_sync (snd (MemoryCache_delete c k))"
  by (auto simp: MemoryCache_sync_def MemoryCache_delete_def keys_delete distinct_delete
      split: option.splits)

lemma max_size_delete: "max_size (snd (MemoryCache_delete c k)) = max_size c"
  by (simp add: MemoryCache_delete_def split: option.splits)

lemma default_ttl_delete: "default_ttl (snd (MemoryCache_delete c k)) = default_ttl c"
  by (simp add: MemoryCache_delete_def split: option.splits)

lemma length_cache_delete:
  "length (cache (snd (MemoryCache_delete c k))) \<le> length (cache c)"
  by (simp add: MemoryCache_delete_def length_delete_le split: option.splits)

lemma inv_iff: "MemoryCache_inv c \<longleftrightarrow> MemoryCache_sync c \<and> int (length (cache c)) \<le> max_size c"
  by (simp add: MemoryCache_inv_def)

lemma inv_delete: "MemoryCache_inv c \<Longrightarrow> MemoryCache_inv (snd (MemoryCache_delete c k))"
  using length_cache_delete[of c k] by (simp add: inv_iff sync_delete max_size_delete)

lemma inv_get: "MemoryCache_inv c \<Longrightarrow> MemoryCache_inv (snd (MemoryCache_get now c k))"
proof (cases "map_of (cache c) k")
  case None
  assume "MemoryCache_inv c"
  with None show ?thesis by (simp add: MemoryCache_get_def)
next
  case (Some item)
  assume inv: "MemoryCache_inv c"
  from Some have "k \<in> fst ` set (cache c)"
    by (metis map_of_None_iff option.distinct(1))
  with inv have "MemoryCache_inv (c\<lparr>access_times := AList.update k now (access_times c)\<rparr>)"
    by (auto simp: MemoryCache_inv_def MemoryCache_sync_def distinct_update dom_update)
  with Some inv show ?thesis
    by (simp add: MemoryCache_get_def inv_delete)
qed

lemma inv_exists: "MemoryCache_inv c \<Longrightarrow> MemoryCache_inv (snd (MemoryCache_exists now c k))"
  by (simp add: MemoryCache_exists_def inv_delete split: option.splits)

lemma inv_clear: "0 \<le> max_size c \<Longrightarrow> MemoryCache_inv (MemoryCache_clear c)"
  by (simp add: MemoryCache_inv_def MemoryCache_sync_def MemoryCache_clear_def)

lemma inv_fold_delete:
  "MemoryCache_inv c \<Longrightarrow> MemoryCache_inv (fold (\<lambda>k s. snd (MemoryCache_delete s k)) ks c)"
  by (induction ks arbitrary: c) (simp_all add: inv_delete)

lemma inv_keys: "MemoryCache_inv c \<Longrightarrow> MemoryCache_inv (snd (MemoryCache_keys now c))"
  by (simp add: MemoryCache_keys_def Let_def inv_fold_delete)

lemma evict_lru_shrinks:
  assumes "MemoryCache_sync c" and "cache c \<noteq> []"
  shows "length (cache (evict_lru c)) < length (cache c)"
proof (cases "access_times c")
  case Nil
  with assms show ?thesis by (simp add: MemoryCache_sync_def)
next
  case (Cons p ps)
  have "py_min p ps \<in> fst ` set (access_times c)"
    using py_min_in[of p ps] Cons by simp
  with assms(1) have mem: "py_min p ps \<in> fst ` set (cache c)"
    by (simp add: MemoryCache_sync_def)
  then obtain item where "map_of (cache c) (py_min p ps) = Some item"
    by (metis map_of_None_iff not_Some_eq)
  with Cons mem show ?thesis
    by (simp add: evict_lru_def MemoryCache_delete_def length_delete_less)
qed

lemma sync_evict_lru: "MemoryCache_sync c \<Longrightarrow> MemoryCache_sync (evict_lru c)"
  by (simp add: evict_lru_def sync_delete split: list.splits)

lemma max_size_evict_lru: "max_size (evict_lru c) = max_size c"
  by (simp add: evict_lru_def max_size_delete split: list.splits)

lemma sync_insert:
  "MemoryCache_sync c \<Longrightarrow>
   MemoryCache_sync (c\<lparr>cache := AList.update k item (cache c),
                       access_times := AList.update k now (access_times c)\<rparr>)"
  by (simp add: MemoryCache_sync_def distinct_update dom_update)

lemma inv_set:
  assumes inv: "MemoryCache_inv c" and pos: "1 \<le> max_size c"
  shows "MemoryCache_inv (MemoryCache_set now c k v ttl)"
proof -
  define c1 where "c1 = (if int (length (cache c)) \<ge> max_size c \<and> map_of (cache c) k = None
                then evict_lru c else c)"
  from inv have sync: "MemoryCache_sync c" and le: "int (length (cache c)) \<le> max_size c"
    by (simp_all add: inv_iff)
  have sync1: "MemoryCache_sync c1"
    using sync by (simp add: c1_def sync_evict_lru)
  have ms1: "max_size c1 = max_size c" by (simp add: c1_def max_size_evict_lru)
  have room: "k \<notin> fst ` set (cache c1) \<Longrightarrow> int (length (cache c1)) < max_size c"
  proof (cases "int (length (cache c)) \<ge> max_size c \<and> map_of (cache c) k = None")
    case True
    with pos have "cache c \<noteq> []" by auto
    from evict_lru_shrinks[OF sync this] le True show ?thesis by (simp add: c1_def)
  next
    case False
    hence same: "c1 = c" unfolding c1_def by (rule if_not_P)
    assume "k \<notin> fst ` set (cache c1)"
    hence "map_of (cache c) k = None" by (simp add: same map_of_None_iff)
    with False le show ?thesis by (simp add: same)
  qed
  have le1: "int (length (cache c1)) \<le> max_size c"
  proof (cases "int (length (cache c)) \<ge> max_size c \<and> map_of (cache c) k = None")
    case True
    with pos have "cache c \<noteq> []" by auto
    from evict_lru_shrinks[OF sync this] le True show ?thesis by (simp add: c1_def)
  next
    case False
    hence "c1 = c" unfolding c1_def by (rule if_not_P)
    with le show ?thesis by simp
  qed
  have "MemoryCache_inv (c1\<lparr>cache := AList.update k item (cache c1),
             access_times := AList.update k now (access_times c1)\<rparr>)" for item
    using sync_insert[OF sync1, where k=k and item=item and now=now] room le1 ms1
    by (auto simp add: inv_iff length_update)
  thus ?thesis
    unfolding MemoryCache_set_def c1_def Let_def by simp
qed

lemma max_size_fold_delete:
  "max_size (fold (\<lambda>k s. snd (MemoryCache_delete s k)) ks c) = max_size c"
  by (induction ks arbitrary: c) (simp_all add: max_size_delete)

lemma max_size_call: "max_size (snd (MemoryCache_call now op c)) = max_size c"
  by (cases op)
     (simp_all add: MemoryCache_get_def MemoryCache_set_def MemoryCache_exists_def
        MemoryCache_clear_def MemoryCache_keys_def Let_def case_prod_beta
        max_size_delete max_size_evict_lru max_size_fold_delete split: option.splits)

lemma inv_call:
  assumes "MemoryCache_inv c" and "1 \<le> max_size c"
  shows "MemoryCache_inv (snd (MemoryCache_call now op c))"
  using assms
  by (cases op)
     (simp_all add: inv_get inv_set inv_delete inv_exists inv_clear inv_keys case_prod_beta)

lemma inv_run:
  "MemoryCache_inv c \<Longrightarrow> 1 \<le> max_size c \<Longrightarrow> MemoryCache_inv (snd (MemoryCache_run c ops))"
proof (induction ops arbitrary: c)
  case Nil
  then show ?case by simp
next
  case (Cons a ops)
  obtain now op where a: "a = (now, op)" by (cases a)
  have "MemoryCache_inv (snd (MemoryCache_call now op c))"
    using Cons.prems by (rule inv_call)
  moreover have "1 \<le> max_size (snd (MemoryCache_call now op c))"
    using Cons.prems(2) by (simp add: max_size_call)
  ultimately have "MemoryCache_inv (snd (MemoryCache_run (snd (MemoryCache_call now op c)) ops))"
    by (rule Cons.IH)
  then show ?case by (simp add: a case_prod_beta)
qed

subsection \<open>The LRU scenario\<close>

text \<open>
  C4 (as stated, refuted): the claim says that on a fresh \<open>MemoryCache(max_size=3)\<close> the
  calls \<open>set(a,1); set(b,2); set(c,3); get(a); set(d,4)\<close> evict \<open>b\<close> and keep \<open>a\<close>. The
  eviction compares the clock readings stored by the calls, and \<open>min\<close> returns the first
  key in dict order among equal readings. When \<open>set(b)\<close>, \<open>set(c)\<close> and \<open>get(a)\<close> read the
  same clock value \<open>2\<close>, \<open>set(d)\<close> evicts \<open>a\<close>: \<open>get(b)\<close> returns \<open>2\<close> and \<open>get(a)\<close> returns
  \<open>None\<close>.
\<close>

theorem lru_scenario_equal_clock:
  "fst (MemoryCache_run \<lparr>max_size = 3, default_ttl = None, cache = [], access_times = []\<rparr>
      [(1, Set ''a'' (Val (1::int)) UNSET), (2, Set ''b'' (Val 2) UNSET),
       (2, Set ''c'' (Val 3) UNSET), (2, Get ''a''), (3, Set ''d'' (Val 4) UNSET),
       (4, Get ''b''), (5, Get ''a''), (6, Get ''c''), (7, Get ''d'')])
     = [Done, Done, Done, Returned (Val 1), Done,
        Returned (Val 2), Returned PyNone, Returned (Val 3), Returned (Val 4)]"
  by (simp add: MemoryCache_set_def MemoryCache_get_def MemoryCache_delete_def
        evict_lru_def is_expired_def)

text \<open>
  C4 (amended): a fresh \<open>MemoryCache(max_size=3)\<close> and four distinct keys \<open>a\<close>, \<open>b\<close>, \<open>c\<close>,
  \<open>d\<close>; the calls read the clock at \<open>t1\<close>, ..., \<open>t9\<close>. Provided \<open>set(b)\<close> read the clock
  strictly before \<open>get(a)\<close> and not after \<open>set(c)\<close>, the calls
  \<open>set(a,1); set(b,2); set(c,3); get(a); set(d,4)\<close> followed by
  \<open>get(b); get(a); get(c); get(d)\<close> return, in this order, nothing five times but the
  \<open>1\<close> of \<open>get(a)\<close>, then \<open>None\<close>, \<open>1\<close>, \<open>3\<close>, \<open>4\<close>: \<open>b\<close> was evicted, the refreshed \<open>a\<close> was
  not.
\<close>

theorem lru_scenario:
  assumes "distinct [a, b, c, d]" and "t2 \<le> t3" and "t2 < t4"
  shows "fst (MemoryCache_run \<lparr>max_size = 3, default_ttl = None, cache = [], access_times = []\<rparr>
      [(t1, Set a (Val (1::int)) UNSET), (t2, Set b (Val 2) UNSET), (t3, Set c (Val 3) UNSET),
       (t4, Get a), (t5, Set d (Val 4) UNSET),
       (t6, Get b), (t7, Get a), (t8, Get c), (t9, Get d)])
     = [Done, Done, Done, Returned (Val 1), Done,
        Returned PyNone, Returned (Val 1), Returned (Val 3), Returned (Val 4)]"
proof -
  from assms(1) have ne: "a \<noteq> b" "a \<noteq> c" "a \<noteq> d" "b \<noteq> c" "b \<noteq> d" "c \<noteq> d"
    "b \<noteq> a" "c \<noteq> a" "d \<noteq> a" "c \<noteq> b" "d \<noteq> b" "d \<noteq> c"
    by auto
  show ?thesis
    using ne assms(2,3)
    by (simp add: MemoryCache_set_def MemoryCache_get_def MemoryCache_delete_def
          evict_lru_def is_expired_def)
qed

theorem lru_scenario_witness:
  "distinct [''a'', ''b'', ''c'', ''d''] \<and> (2::real) \<le> 3 \<and> (2::real) < 4 \<and>
   fst (MemoryCache_run \<lparr>max_size = 3, default_ttl = None, cache = [], access_times = []\<rparr>
      [(1, Set ''a'' (Val (1::int)) UNSET), (2, Set ''b'' (Val 2) UNSET),
       (3, Set ''c'' (Val 3) UNSET), (4, Get ''a''), (5, Set ''d'' (Val 4) UNSET),
       (6, Get ''b''), (7, Get ''a''), (8, Get ''c''), (9, Get ''d'')])
     = [Done, Done, Done, Returned (Val 1), Done,
        Returned PyNone, Returned (Val 1), Returned (Val 3), Returned (Val 4)]"
  using lru_scenario[of "''a''" "''b''" "''c''" "''d''" 2 3 4 1 5 6 7 8 9] by simp

text \<open>
  The condition on the clock is the weakest one: whenever the nine calls return what
  the claim says, \<open>set(b)\<close> read the clock strictly before \<open>get(a)\<close> and not after \<open>set(c)\<close>.
\<close>

lemma lru_scenario_only_if:
  assumes "distinct [a, b, c, d]"
    and "fst (MemoryCache_run \<lparr>max_size = 3, default_ttl = None, cache = [], access_times = []\<rparr>
      [(t1, Set a (Val (1::int)) UNSET), (t2, Set b (Val 2) UNSET), (t3, Set c (Val 3) UNSET),
       (t4, Get a), (t5, Set d (Val 4) UNSET),
       (t6, Get b), (t7, Get a), (t8, Get c), (t9, Get d)])
     = [Done, Done, Done, Returned (Val 1), Done,
        Returned PyNone, Returned (Val 1), Returned (Val 3), Returned (Val 4)]"
  shows "t2 \<le> t3 \<and> t2 < t4"
proof -
  from assms(1) have ne: "a \<noteq> b" "a \<noteq> c" "a \<noteq> d" "b \<noteq> c" "b \<noteq> d" "c \<noteq> d"
    "b \<noteq> a" "c \<noteq> a" "d \<noteq> a" "c \<noteq> b" "d \<noteq> b" "d \<noteq> c"
    by auto
  show ?thesis
    using assms(2) ne
    by (simp add: MemoryCache_set_def MemoryCache_get_def MemoryCache_delete_def
          evict_lru_def is_expired_def split: if_splits)
qed

subsection \<open>The size bound and the two dicts\<close>

text \<open>
  C5: a \<open>MemoryCache\<close> constructed with \<open>max_size \<ge> 1\<close>, and any sequence of \<open>get\<close>,
  \<open>set\<close>, \<open>delete\<close>, \<open>exists\<close>, \<open>clear\<close> and \<open>keys\<close> calls on it, at any clock readings
  and with any arguments. After every call of the sequence (after its first \<open>n\<close> calls,
  for every \<open>n\<close>) the cache holds at most \<open>max_size\<close> entries and \<open>_cache\<close> and
  \<open>_access_times\<close> hold exactly the same keys, each once.
\<close>

theorem size_bound_and_sync:
  assumes "1 \<le> m"
  shows "MemoryCache_inv
           (snd (MemoryCache_run \<lparr>max_size = m, default_ttl = d, cache = [], access_times = []\<rparr>
                   (take n ops)))"
  using assms by (intro inv_run) (simp_all add: MemoryCache_inv_def MemoryCache_sync_def)

theorem size_bound_and_sync_witness:
  "(1::int) \<le> 1 \<and>
   MemoryCache_inv
     (snd (MemoryCache_run \<lparr>max_size = 1, default_ttl = Some 5, cache = [], access_times = []\<rparr>
        (take 3 [(0, Set ''a'' (Val (7::nat)) UNSET), (1, Set ''b'' PyNone (Ttl None)),
                 (2, Get ''a''), (9, Keys)])))"
  using size_bound_and_sync[of 1 "Some 5" 3
      "[(0, Set ''a'' (Val (7::nat)) UNSET), (1, Set ''b'' PyNone (Ttl None)),
        (2, Get ''a''), (9, Keys)]"]
  by simp

subsection \<open>Reading back what was written\<close>

lemma map_of_update_same: "map_of (AList.update k v al) k = Some v"
  by (simp add: update_conv')

lemma map_of_delete_same: "map_of (AList.delete k al) k = None"
  by (simp add: delete_conv')

lemma default_ttl_evict_lru: "default_ttl (evict_lru c) = default_ttl c"
  by (simp add: evict_lru_def MemoryCache_delete_def split: list.splits option.splits)

lemma MemoryCache_get_after_set:
  "fst (MemoryCache_get t' (MemoryCache_set t c k v ttl) k) =
     (case (case ttl of UNSET \<Rightarrow> default_ttl c | Ttl n \<Rightarrow> n) of
        None \<Rightarrow> v
      | Some n \<Rightarrow> if t' > t + of_int n then PyNone else v)"
  by (simp add: MemoryCache_get_def MemoryCache_set_def Let_def map_of_update_same is_expired_def
        default_ttl_evict_lru split: ttl_arg.splits option.splits)

lemma FileCache_get_after_set:
  assumes "serialize fc v = Inr bytes"
  shows "fst (FileCache_get t' (snd (FileCache_set t fc k v ttl)) k) =
     (case (case ttl of Some n \<Rightarrow> Some n | None \<Rightarrow> file_default_ttl fc) of
        None \<Rightarrow> (case deserialize fc bytes of
                    Inr w \<Rightarrow> Inr w | Inl e \<Rightarrow> Inl CacheSerializationError)
      | Some n \<Rightarrow>
          if t' > t + of_int n then Inr PyNone
          else (case deserialize fc bytes of
                  Inr w \<Rightarrow> Inr w | Inl e \<Rightarrow> Inl CacheSerializationError))"
  using assms
  by (simp add: FileCache_get_def FileCache_set_def get_cache_file_def Let_def
        map_of_update_same is_expired_def split: option.splits sum.splits)

subsection \<open>FileCache.keys\<close>

text \<open>
  Whatever \<open>keys\<close> returns is a list of file stems, that is of digests. After a \<open>set(k, v)\<close>
  on an empty directory the only stem is the digest of \<open>k\<close>, so \<open>k\<close> can be returned only
  if it is its own digest.
\<close>

lemma FileCache_keys_loop_stems:
  "FileCache_keys_loop now stems acc fc = (Inr ks, fc') \<Longrightarrow> set ks \<subseteq> set acc \<union> set stems"
proof (induction stems arbitrary: acc fc)
  case Nil
  then show ?case by simp
next
  case (Cons stem stems)
  obtain r fc1 where ex: "FileCache_exists now fc stem = (r, fc1)"
    by (cases "FileCache_exists now fc stem")
  show ?case
  proof (cases r)
    case (Inl e)
    with ex Cons.prems show ?thesis by simp
  next
    case (Inr b)
    with ex Cons.prems
    have "FileCache_keys_loop now stems (if b then acc @ [stem] else acc) fc1 = (Inr ks, fc')"
      by simp
    from Cons.IH[OF this] show ?thesis by (auto split: if_splits)
  qed
qed

lemma FileCache_keys_are_stems:
  assumes "fst (FileCache_keys now fc) = Inr ks"
  shows "set ks \<subseteq> fst ` set (cache_dir fc)"
proof -
  obtain fc' where "FileCache_keys_loop now (map fst (cache_dir fc)) [] fc = (Inr ks, fc')"
    using assms by (cases "FileCache_keys now fc") (simp add: FileCache_keys_def)
  from FileCache_keys_loop_stems[OF this] show ?thesis by simp
qed

lemma FileCache_keys_after_set:
  assumes "cache_dir fc = []"
    and "fst (FileCache_keys t' (snd (FileCache_set t fc k v ttl))) = Inr ks"
    and "k \<in> set ks"
  shows "md5_hexdigest fc k = k"
proof -
  have "fst ` set (cache_dir (snd (FileCache_set t fc k v ttl))) \<subseteq> {md5_hexdigest fc k}"
    using assms(1)
    by (simp add: FileCache_set_def get_cache_file_def Let_def split: sum.splits)
  with FileCache_keys_are_stems[OF assms(2)] assms(3) have "k \<in> {md5_hexdigest fc k}"
    by blast
  thus ?thesis by simp
qed

text \<open>
  C1 (the code departs from the claim): the claim says that after \<open>set(k, v)\<close> with no
  expiry in force \<open>keys()\<close> contains \<open>k\<close>. \<open>keys\<close> passes the stem of each file, which is
  the digest of a key, to \<open>exists\<close>, which hashes it again and looks for a file that
  was never written. On an empty directory, after \<open>set("a", 1)\<close>, \<open>get("a")\<close> returns \<open>1\<close>
  and \<open>keys()\<close> returns the empty list.
\<close>

theorem FileCache_keys_after_set_empty:
  "fst (FileCache_get 1
         (snd (FileCache_set 0 (sample_FileCache [] None) ''a'' (Val (1::nat)) None)) ''a'')
     = Inr (Val 1) \<and>
   fst (FileCache_keys 1
         (snd (FileCache_set 0 (sample_FileCache [] None) ''a'' (Val (1::nat)) None)))
     = Inr []"
  by (simp add: FileCache_keys_def FileCache_exists_def FileCache_get_def FileCache_set_def
        get_cache_file_def Let_def sample_FileCache_def md5_sample_def is_expired_def)

subsection \<open>An explicit \<open>ttl=None\<close>\<close>

text \<open>
  C2 (the code departs from the claim): the claim says that \<open>set(k, v, ttl=None)\<close> creates
  an entry that never expires on every backend, a \<open>FileCache\<close> with a \<open>default_ttl\<close>
  included. \<open>MemoryCache.set\<close> tells the omitted \<open>ttl\<close> (\<open>_UNSET\<close>) from an explicit \<open>None\<close>;
  \<open>FileCache.set\<close> has no such sentinel and gives an explicit \<open>None\<close> the default TTL. On a
  \<open>FileCache\<close> with \<open>default_ttl=1\<close>, \<open>set("a", 5, ttl=None)\<close> at time \<open>0\<close> followed by
  \<open>get("a")\<close> at time \<open>2\<close> returns \<open>None\<close>.
\<close>

theorem file_explicit_none_ttl_expires:
  "fst (FileCache_get 2
         (snd (FileCache_set 0 (sample_FileCache [] (Some 1)) ''a'' (Val (5::nat)) None)) ''a'')
     = Inr PyNone"
  by (simp add: FileCache_get_def FileCache_set_def get_cache_file_def Let_def
        sample_FileCache_def md5_sample_def is_expired_def)

text \<open>
  What the two backends do with an explicit \<open>ttl=None\<close>, in general. On a \<open>MemoryCache\<close>,
  after \<open>set(k, v, ttl=None)\<close> a \<open>get(k)\<close> at any time returns \<open>v\<close>, whatever \<open>default_ttl\<close>
  is. On a \<open>FileCache\<close> whose serializer gives \<open>v\<close> back, an explicit \<open>ttl=None\<close> is the
  omitted \<open>ttl\<close>: with \<open>default_ttl = None\<close> a \<open>get(k)\<close> at any time returns \<open>v\<close>; with
  \<open>default_ttl = d\<close> the entry expires at the time of the \<open>set\<close> plus \<open>d\<close>, so \<open>get(k)\<close>
  returns \<open>v\<close> up to that instant and \<open>None\<close> after it.
\<close>

theorem explicit_none_ttl:
  assumes "serialize fc v = Inr bytes" and "deserialize fc bytes = Inr v"
  shows "fst (MemoryCache_get t' (MemoryCache_set t c k v (Ttl None)) k) = v \<and>
         fst (FileCache_get t' (snd (FileCache_set t fc k v None)) k) =
           (case file_default_ttl fc of
              None \<Rightarrow> Inr v
            | Some d \<Rightarrow> if t' > t + of_int d then Inr PyNone else Inr v)"
  using assms
  by (simp add: MemoryCache_get_after_set FileCache_get_after_set split: option.splits)

theorem explicit_none_ttl_witness:
  "serialize (sample_FileCache [] (Some 1)) (Val (5::nat)) = Inr (Val 5) \<and>
   deserialize (sample_FileCache [] (Some 1)) (Val (5::nat)) = Inr (Val 5) \<and>
   fst (MemoryCache_get 100
          (MemoryCache_set 0 \<lparr>max_size = 3, default_ttl = Some 1, cache = [], access_times = []\<rparr>
             ''a'' (Val (5::nat)) (Ttl None)) ''a'') = Val 5 \<and>
   fst (FileCache_get 1
          (snd (FileCache_set 0 (sample_FileCache [] (Some 1)) ''a'' (Val (5::nat)) None)) ''a'')
     = Inr (Val 5) \<and>
   fst (FileCache_get 100
          (snd (FileCache_set 0 (sample_FileCache [] (Some 1)) ''a'' (Val (5::nat)) None)) ''a'')
     = Inr PyNone"
  using explicit_none_ttl[where fc = "sample_FileCache [] (Some 1)" and v = "Val (5::nat)"
      and bytes = "Val 5" and t = 0 and t' = 100 and k = "''a''"
      and c = "\<lparr>max_size = 3, default_ttl = Some 1, cache = [], access_times = []\<rparr>"]
    explicit_none_ttl[where fc = "sample_FileCache [] (Some 1)" and v = "Val (5::nat)"
      and bytes = "Val 5" and t = 0 and t' = 1 and k = "''a''"
      and c = "\<lparr>max_size = 3, default_ttl = Some 1, cache = [], access_times = []\<rparr>"]
  by (simp add: sample_FileCache_def)

subsection \<open>A file that cannot be decoded\<close>

text \<open>
  C8: if the file of key \<open>k\<close> exists and cannot be decoded, \<open>get(k)\<close> unlinks the file and
  raises \<open>CacheSerializationError\<close>, and a \<open>get(k)\<close> repeated right after, at any time
  \<open>t2\<close>, returns \<open>None\<close> without raising.
\<close>

theorem corrupt_file_self_heals:
  assumes "map_of (cache_dir fc) (get_cache_file fc k) = Some f"
    and "undecodable t1 fc f"
  shows "FileCache_get t1 fc k =
           (Inl CacheSerializationError,
            fc\<lparr>cache_dir := AList.delete (get_cache_file fc k) (cache_dir fc)\<rparr>) \<and>
         fst (FileCache_get t2 (snd (FileCache_get t1 fc k)) k) = Inr PyNone"
proof (cases f)
  case Corrupt
  with assms(1) show ?thesis
    by (simp add: FileCache_get_def get_cache_file_def map_of_delete_same)
next
  case (Pickled cache_data)
  with assms(2) have live: "\<not> is_expired t1 cache_data"
    and bad: "isl (deserialize fc (item_value cache_data))"
    by (simp_all add: undecodable_def)
  from bad obtain e where "deserialize fc (item_value cache_data) = Inl e"
    by (cases "deserialize fc (item_value cache_data)") simp_all
  with Pickled assms(1) live show ?thesis
    by (simp add: FileCache_get_def get_cache_file_def map_of_delete_same)
qed

theorem corrupt_file_self_heals_witness:
  "map_of (cache_dir (sample_FileCache [(md5_sample ''a'', Corrupt)] None :: (nat, nat pyval) FileCache))
      (get_cache_file (sample_FileCache [(md5_sample ''a'', Corrupt)] None :: (nat, nat pyval) FileCache) ''a'')
     = Some Corrupt \<and>
   undecodable 1 (sample_FileCache [(md5_sample ''a'', Corrupt)] None :: (nat, nat pyval) FileCache) Corrupt \<and>
   FileCache_get 1 (sample_FileCache [(md5_sample ''a'', Corrupt)] None :: (nat, nat pyval) FileCache) ''a''
     = (Inl CacheSerializationError, sample_FileCache [] None) \<and>
   fst (FileCache_get 2 (snd (FileCache_get 1
          (sample_FileCache [(md5_sample ''a'', Corrupt)] None :: (nat, nat pyval) FileCache) ''a'')) ''a'')
     = Inr PyNone"
  using corrupt_file_self_heals[of "sample_FileCache [(md5_sample ''a'', Corrupt)] None :: (nat, nat pyval) FileCache"
      "''a''" Corrupt 1 2]
  by (simp add: sample_FileCache_def get_cache_file_def undecodable_def FileCache_get_def md5_sample_def)

subsection \<open>The decorator does not depend on the cache\<close>

text \<open>
  C9: \<open>cache_key\<close> is the key the wrapper derives. If \<open>manager.get\<close> raises (or returns
  \<open>None\<close>), the wrapper calls \<open>func\<close> and the caller gets exactly the outcome of \<open>func\<close>.
  This holds for every manager and backend, so also when the \<open>manager.set\<close> that follows
  raises: its exception is dropped.
\<close>

theorem cache_result_survives_cache_failures:
  assumes "cache_key = (case key_func of Some kf \<Rightarrow> kf args | None \<Rightarrow> generate_cache_key args)"
    and "fst (CacheManager_get t_get manager cache_key backend) = Inl e \<or>
         fst (CacheManager_get t_get manager cache_key backend) = Inr PyNone"
  shows "fst (cache_result ttl key_func backend generate_cache_key func t_get t_set manager args)
           = func args \<and>
         fst (snd (cache_result ttl key_func backend generate_cache_key func t_get t_set manager args))"
  using assms
  by (auto simp: cache_result_def Let_def split: sum.splits)

text \<open>
  In the example the default backend raises on every operation: the lookup raises
  \<open>CacheError\<close>, the store raises \<open>CacheError\<close>, and the caller still gets \<open>func(3) = 4\<close>.
\<close>

theorem cache_result_survives_cache_failures_witness:
  "fst (CacheManager_get 1
          \<lparr>default_backend = Single Failing, backends = Map.empty,
             hits = 0, misses = 0, sets = 0, deletes = 0\<rparr> ''a'' None) = Inl CacheError \<and>
   fst (CacheManager_set 2
          \<lparr>default_backend = Single Failing, backends = Map.empty,
             hits = 0, misses = 1, sets = 0, deletes = 0\<rparr> ''a'' (Val (4::nat)) None None)
     = Inl CacheError \<and>
   cache_result None None None (\<lambda>x. ''a'') (\<lambda>x. Inr (Val (x + 1))) 1 2
      (\<lparr>default_backend = Single Failing, backends = Map.empty,
             hits = 0, misses = 0, sets = 0, deletes = 0\<rparr> :: (nat, nat pyval) CacheManager) (3::nat)
     = (Inr (Val 4), True,
        \<lparr>default_backend = Single Failing, backends = Map.empty,
             hits = 0, misses = 1, sets = 0, deletes = 0\<rparr>)"
  using cache_result_survives_cache_failures[where cache_key = "''a''" and key_func = None
      and generate_cache_key = "\<lambda>x. ''a''" and args = "3::nat" and t_get = 1 and t_set = 2
      and manager = "\<lparr>default_backend = Single Failing, backends = Map.empty,
             hits = 0, misses = 0, sets = 0, deletes = 0\<rparr> :: (nat, nat pyval) CacheManager"
      and backend = None and e = CacheError and ttl = None
      and func = "\<lambda>x. Inr (Val (x + 1))"]
  by (simp add: cache_result_def CacheManager_get_def CacheManager_set_def get_backend_def
        put_backend_def Let_def)

subsection \<open>Fault isolation in the cascade\<close>

text \<open>
  C7: a \<open>MultiLevelCache\<close> over one tier \<open>h\<close> and one tier whose every operation
  raises, in either order. \<open>get\<close>, \<open>set\<close> and \<open>delete\<close> return normally (\<open>Inr\<close>) and do
  what \<open>h\<close> alone does: \<open>get\<close> returns the value \<open>h.get\<close> returns (\<open>None\<close> where \<open>h.get\<close>
  finds nothing or raises), \<open>set\<close> performs \<open>h.set(key, value, ttl)\<close>, \<open>delete\<close> returns
  \<open>True\<close> exactly when \<open>h.delete\<close> returned \<open>True\<close>; the failing tier is left as it was.
\<close>

theorem fault_isolation:
  "backend_get now (MultiLevel [Failing, h]) k =
     (Inr (case fst (tier_get now h k) of Inr v \<Rightarrow> v | Inl e \<Rightarrow> PyNone),
      MultiLevel [Failing, snd (tier_get now h k)]) \<and>
   backend_get now (MultiLevel [h, Failing]) k =
     (Inr (case fst (tier_get now h k) of Inr v \<Rightarrow> v | Inl e \<Rightarrow> PyNone),
      MultiLevel [snd (tier_get now h k), Failing]) \<and>
   backend_set now (MultiLevel [Failing, h]) k v ttl =
     (Inr (), MultiLevel [Failing, snd (tier_set now h k v (Ttl (optional_ttl ttl)))]) \<and>
   backend_set now (MultiLevel [h, Failing]) k v ttl =
     (Inr (), MultiLevel [snd (tier_set now h k v (Ttl (optional_ttl ttl))), Failing]) \<and>
   backend_delete (MultiLevel [Failing, h]) k =
     (Inr (fst (tier_delete h k) = Inr True), MultiLevel [Failing, snd (tier_delete h k)]) \<and>
   backend_delete (MultiLevel [h, Failing]) k =
     (Inr (fst (tier_delete h k) = Inr True), MultiLevel [snd (tier_delete h k), Failing])"
  by (cases "tier_get now h k"; cases "fst (tier_get now h k)"; cases "tier_delete h k")
     (auto simp: MultiLevelCache_get_def MultiLevelCache_set_def MultiLevelCache_delete_def)

text \<open>
  The example is the test \<open>test_cache_failure_resilience\<close>: after \<open>set\<close> on the cascade
  over a failing tier and a fresh \<open>MemoryCache\<close>, the cascade and the \<open>MemoryCache\<close> both
  return the value, and \<open>delete\<close> on the cascade returns \<open>True\<close>.
\<close>

theorem fault_isolation_witness:
  "fst (backend_get 2
     (snd (backend_set 1 (MultiLevel [Failing, Memory fresh_MemoryCache :: (nat, nat pyval) tier])
        ''a'' (Val 7) UNSET)) ''a'') = Inr (Val 7) \<and>
   fst (tier_get 2
     (Memory (MemoryCache_set 1 fresh_MemoryCache ''a'' (Val 7) (Ttl None))
        :: (nat, nat pyval) tier) ''a'') = Inr (Val 7) \<and>
   fst (backend_delete
     (snd (backend_set 1 (MultiLevel [Failing, Memory fresh_MemoryCache :: (nat, nat pyval) tier])
        ''a'' (Val 7) UNSET)) ''a'') = Inr True"
  using fault_isolation[where h = "Memory fresh_MemoryCache :: (nat, nat pyval) tier"
      and now = 1 and k = "''a''" and v = "Val 7" and ttl = UNSET]
    fault_isolation[where h = "Memory (MemoryCache_set 1 fresh_MemoryCache ''a'' (Val 7) (Ttl None))
        :: (nat, nat pyval) tier" and now = 2 and k = "''a''" and v = "Val 7" and ttl = UNSET]
  by (simp add: fresh_MemoryCache_def MultiLevelCache_get_def MultiLevelCache_set_def
        MultiLevelCache_delete_def MemoryCache_get_def MemoryCache_set_def MemoryCache_delete_def
        is_expired_def optional_ttl_def)

subsection \<open>Write-back\<close>

lemma FileCache_get_fields:
  "serialize (snd (FileCache_get t fc k)) = serialize fc"
  "deserialize (snd (FileCache_get t fc k)) = deserialize fc"
  "file_default_ttl (snd (FileCache_get t fc k)) = file_default_ttl fc"
  "md5_hexdigest (snd (FileCache_get t fc k)) = md5_hexdigest fc"
  by (simp_all add: FileCache_get_def Let_def split: option.splits cache_file.splits sum.splits)

lemma MemoryCache_get_fields:
  "default_ttl (snd (MemoryCache_get t c k)) = default_ttl c"
  "max_size (snd (MemoryCache_get t c k)) = max_size c"
  by (simp_all add: MemoryCache_get_def max_size_delete default_ttl_delete split: option.splits)

lemma tier_stores_get: "tier_stores (snd (tier_get t c k)) v = tier_stores c v"
  by (cases c)
     (simp_all add: case_prod_beta round_trips_def FileCache_get_fields split: sum.splits)

lemma tier_default_ttl_get: "tier_default_ttl (snd (tier_get t c k)) = tier_default_ttl c"
  by (cases c) (simp_all add: case_prod_beta FileCache_get_fields MemoryCache_get_fields)

lemma tier_get_after_set:
  assumes "tier_stores c v"
  shows "fst (tier_get t' (snd (tier_set t c k v UNSET)) k) =
           (if within_default_ttl c t t' then Inr v else Inr PyNone)"
proof (cases c)
  case (Memory m)
  then show ?thesis
    by (simp add: case_prod_beta MemoryCache_get_after_set within_default_ttl_def not_le
          split: option.splits)
next
  case (File fc)
  with assms obtain bytes where ser: "serialize fc v = Inr bytes"
    and de: "deserialize fc bytes = Inr v"
    by (auto simp: round_trips_def split: sum.splits)
  from File show ?thesis
    by (simp add: case_prod_beta FileCache_get_after_set[OF ser] de within_default_ttl_def
          optional_ttl_def not_le split: option.splits)
next
  case Failing
  with assms show ?thesis by simp
qed

text \<open>
  C6 (as stated, refuted): the claim says that after a direct \<open>slow.set(k, v)\<close> the
  cascade's \<open>get(k)\<close> returns \<open>v\<close>. The cascade asks the fast tier first: when the fast
  tier holds \<open>1\<close> under \<open>"a"\<close> and \<open>slow.set("a", 2)\<close> is done directly, the cascade's
  \<open>get("a")\<close> returns \<open>1\<close>.
\<close>

theorem stale_fast_tier_shadows_slow_set:
  "fst (MultiLevelCache_get 2
         [Memory (MemoryCache_set 0
             \<lparr>max_size = 3, default_ttl = None, cache = [], access_times = []\<rparr>
             ''a'' (Val (1::nat)) UNSET),
          snd (tier_set 1
             (Memory \<lparr>max_size = 3, default_ttl = None, cache = [], access_times = []\<rparr>
               :: (nat, nat pyval) tier)
             ''a'' (Val 2) UNSET)]
         ''a'') = Val 1"
  by (simp add: MultiLevelCache_get_def MemoryCache_get_def MemoryCache_set_def is_expired_def)

text \<open>
  C6 (amended): \<open>slow.set(k, v)\<close> is done directly at \<open>t_set\<close> with \<open>v\<close> not \<open>None\<close>, on a
  slow tier that stores \<open>v\<close>. If, when the cascade's \<open>get(k)\<close> runs at \<open>t_get\<close>, the fast
  tier has no value to return for \<open>k\<close> (its \<open>get\<close> returns \<open>None\<close> or raises) and the
  default TTL of the slow tier has not elapsed, then the cascade returns \<open>v\<close>, whatever
  the fast tier is, and leaves the fast tier as its own \<open>get(k)\<close> followed by its own
  \<open>set(k, v)\<close> leave it. If moreover the fast tier stores \<open>v\<close>, a direct \<open>fast.get(k)\<close> at
  \<open>t_read\<close> returns \<open>v\<close> as long as the default TTL of the fast tier, which the write-back
  applies, has not elapsed since \<open>t_get\<close>, and \<open>None\<close> once it has.
\<close>

theorem write_back_propagation:
  assumes "v \<noteq> PyNone"
    and "\<not> is_hit (fst (tier_get t_get fast k))"
    and "tier_stores slow v" and "within_default_ttl slow t_set t_get"
  shows "MultiLevelCache_get t_get [fast, snd (tier_set t_set slow k v UNSET)] k =
           (v, [snd (tier_set t_get (snd (tier_get t_get fast k)) k v UNSET),
                snd (tier_get t_get (snd (tier_set t_set slow k v UNSET)) k)]) \<and>
         (tier_stores fast v \<longrightarrow>
            fst (tier_get t_read
                   (snd (tier_set t_get (snd (tier_get t_get fast k)) k v UNSET)) k)
              = (if within_default_ttl fast t_get t_read then Inr v else Inr PyNone))"
proof -
  define slow1 where "slow1 = snd (tier_set t_set slow k v UNSET)"
  define fast1 where "fast1 = snd (tier_get t_get fast k)"
  have slow_hit: "fst (tier_get t_get slow1 k) = Inr v"
    unfolding slow1_def using assms(3,4) by (simp add: tier_get_after_set)
  have wb: "tier_stores fast v \<longrightarrow>
      fst (tier_get t_read (snd (tier_set t_get fast1 k v UNSET)) k)
        = (if within_default_ttl fast t_get t_read then Inr v else Inr PyNone)"
  proof
    assume "tier_stores fast v"
    hence "tier_stores fast1 v" by (simp add: fast1_def tier_stores_get)
    from tier_get_after_set[OF this, of t_read t_get k]
    show "fst (tier_get t_read (snd (tier_set t_get fast1 k v UNSET)) k)
        = (if within_default_ttl fast t_get t_read then Inr v else Inr PyNone)"
      by (simp add: fast1_def within_default_ttl_def tier_default_ttl_get)
  qed
  have "MultiLevelCache_get t_get [fast, slow1] k =
          (v, [snd (tier_set t_get fast1 k v UNSET), snd (tier_get t_get slow1 k)])"
    using assms(1,2) slow_hit
    by (cases "tier_get t_get fast k"; cases "tier_get t_get slow1 k")
       (auto simp: MultiLevelCache_get_def is_hit_def fast1_def split: sum.splits)
  with wb show ?thesis by (simp add: slow1_def fast1_def)
qed

text \<open>
  Three examples over a slow \<open>FileCache\<close>: a fresh \<open>MemoryCache\<close> as fast tier (the value
  is returned and read back), a fast \<open>MemoryCache\<close> with \<open>default_ttl=1\<close> read at time \<open>5\<close>
  (the write-back has expired), and a fast tier that raises (the value is returned).
\<close>

theorem write_back_propagation_witness:
  "Val (7::nat) \<noteq> PyNone \<and>
   \<not> is_hit (fst (tier_get 1 (Memory fresh_MemoryCache :: (nat, nat pyval) tier) ''a'')) \<and>
   \<not> is_hit (fst (tier_get 1 (Failing :: (nat, nat pyval) tier) ''a'')) \<and>
   tier_stores (File (sample_FileCache [] None)) (Val (7::nat)) \<and>
   within_default_ttl (File (sample_FileCache [] None) :: (nat, nat pyval) tier) 0 1 \<and>
   tier_stores (Memory fresh_MemoryCache :: (nat, nat pyval) tier) (Val 7) \<and>
   fst (MultiLevelCache_get 1
          [Memory fresh_MemoryCache,
           snd (tier_set 0 (File (sample_FileCache [] None)) ''a'' (Val 7) UNSET)] ''a'') = Val 7 \<and>
   fst (tier_get 2
          (hd (snd (MultiLevelCache_get 1
             [Memory fresh_MemoryCache,
              snd (tier_set 0 (File (sample_FileCache [] None)) ''a'' (Val 7) UNSET)] ''a'')))
          ''a'') = Inr (Val 7) \<and>
   fst (tier_get 5
          (hd (snd (MultiLevelCache_get 1
             [Memory \<lparr>max_size = 3, default_ttl = Some 1, cache = [], access_times = []\<rparr>,
              snd (tier_set 0 (File (sample_FileCache [] None)) ''a'' (Val 7) UNSET)] ''a'')))
          ''a'') = Inr PyNone \<and>
   fst (MultiLevelCache_get 1
          [Failing,
           snd (tier_set 0 (File (sample_FileCache [] None)) ''a'' (Val 7) UNSET)] ''a'') = Val 7"
  using write_back_propagation[where v = "Val (7::nat)" and t_set = 0 and t_get = 1 and t_read = 2
      and fast = "Memory fresh_MemoryCache" and slow = "File (sample_FileCache [] None)"
      and k = "''a''"]
    write_back_propagation[where v = "Val (7::nat)" and t_set = 0 and t_get = 1 and t_read = 5
      and fast = "Memory \<lparr>max_size = 3, default_ttl = Some 1, cache = [], access_times = []\<rparr>"
      and slow = "File (sample_FileCache [] None)" and k = "''a''"]
    write_back_propagation[where v = "Val (7::nat)" and t_set = 0 and t_get = 1 and t_read = 2
      and fast = Failing and slow = "File (sample_FileCache [] None)" and k = "''a''"]
  by (simp add: fresh_MemoryCache_def sample_FileCache_def md5_sample_def
        MultiLevelCache_get_def MemoryCache_get_def MemoryCache_set_def is_expired_def
        FileCache_get_def FileCache_set_def get_cache_file_def optional_ttl_def Let_def
        round_trips_def within_default_ttl_def is_hit_def)

subsection \<open>A stored \<open>None\<close>\<close>

lemma MemoryCache_get_after_set_None:
  "fst (MemoryCache_get t' (MemoryCache_set t c k PyNone ttl) k) = PyNone"
  by (simp add: MemoryCache_get_after_set split: option.splits)

lemma MemoryCache_exists_after_set:
  "fst (MemoryCache_exists t' (MemoryCache_set t c k v ttl) k) =
     (case (case ttl of UNSET \<Rightarrow> default_ttl c | Ttl n \<Rightarrow> n) of
        None \<Rightarrow> True
      | Some n \<Rightarrow> t' \<le> t + of_int n)"
  by (auto simp add: MemoryCache_exists_def MemoryCache_set_def Let_def map_of_update_same
        is_expired_def default_ttl_evict_lru split: ttl_arg.splits option.splits)

lemma FileCache_get_after_set_None:
  assumes "round_trips fc PyNone"
  shows "fst (FileCache_get t' (snd (FileCache_set t fc k PyNone ttl)) k) = Inr PyNone"
proof -
  from assms obtain bytes where ser: "serialize fc PyNone = Inr bytes"
    and de: "deserialize fc bytes = Inr PyNone"
    by (auto simp: round_trips_def split: sum.splits)
  show ?thesis
    by (simp add: FileCache_get_after_set[OF ser] de split: option.splits)
qed

lemma tier_get_after_set_None:
  assumes "tier_keeps_None c"
  shows "\<not> is_hit (fst (tier_get t' (snd (tier_set t c k PyNone ttl)) k))"
  using assms
  by (cases c)
     (simp_all add: is_hit_def case_prod_beta MemoryCache_get_after_set_None
        FileCache_get_after_set_None)

lemma MultiLevelCache_get_from_no_hit:
  "(\<And>c. c \<in> set lower \<Longrightarrow> \<not> is_hit (fst (tier_get now c k))) \<Longrightarrow>
   fst (MultiLevelCache_get_from now higher lower k) = PyNone"
proof (induction lower arbitrary: higher)
  case Nil
  then show ?case by simp
next
  case (Cons c lower)
  have "\<not> is_hit (fst (tier_get now c k))" by (rule Cons.prems) simp
  moreover have "fst (MultiLevelCache_get_from now (higher @ [snd (tier_get now c k)]) lower k) = PyNone"
    by (rule Cons.IH) (simp add: Cons.prems)
  ultimately show ?case
    by (cases "tier_get now c k") (auto simp: is_hit_def split: sum.splits)
qed

lemma MultiLevelCache_get_after_set_None:
  assumes "list_all tier_keeps_None caches"
  shows "fst (MultiLevelCache_get t' (MultiLevelCache_set t caches k PyNone ttl) k) = PyNone"
  unfolding MultiLevelCache_get_def MultiLevelCache_set_def
proof (rule MultiLevelCache_get_from_no_hit)
  fix c assume "c \<in> set (map (\<lambda>c. snd (tier_set t c k PyNone (Ttl ttl))) caches)"
  then obtain c0 where "c0 \<in> set caches" and c: "c = snd (tier_set t c0 k PyNone (Ttl ttl))"
    by auto
  with assms have "tier_keeps_None c0" by (simp add: list_all_iff)
  thus "\<not> is_hit (fst (tier_get t' c k))" unfolding c by (rule tier_get_after_set_None)
qed

lemma backend_get_after_set_None:
  assumes "backend_keeps_None b"
  shows "\<not> is_hit (fst (backend_get t' (snd (backend_set t b k PyNone ttl)) k))"
proof (cases b)
  case (Single c)
  with assms have "tier_keeps_None c" by (simp add: backend_keeps_None_def)
  from tier_get_after_set_None[OF this] Single show ?thesis
    by (simp add: case_prod_beta)
next
  case (MultiLevel cs)
  with assms have "list_all tier_keeps_None cs" by (simp add: backend_keeps_None_def)
  from MultiLevelCache_get_after_set_None[OF this] MultiLevel show ?thesis
    by (simp add: case_prod_beta is_hit_def)
qed

lemma FileCache_set_fields:
  "serialize (snd (FileCache_set t fc k v ttl)) = serialize fc"
  "deserialize (snd (FileCache_set t fc k v ttl)) = deserialize fc"
  "file_default_ttl (snd (FileCache_set t fc k v ttl)) = file_default_ttl fc"
  "md5_hexdigest (snd (FileCache_set t fc k v ttl)) = md5_hexdigest fc"
  by (simp_all add: FileCache_set_def Let_def split: sum.splits)

lemma tier_keeps_None_get: "tier_keeps_None (snd (tier_get t c k)) = tier_keeps_None c"
  by (cases c)
     (simp_all add: case_prod_beta round_trips_def FileCache_get_fields split: sum.splits)

lemma tier_keeps_None_set: "tier_keeps_None (snd (tier_set t c k v ttl)) = tier_keeps_None c"
  by (cases c)
     (simp_all add: case_prod_beta round_trips_def FileCache_set_fields split: sum.splits)

lemma MultiLevelCache_get_from_keeps_None:
  "list_all tier_keeps_None (higher @ lower) \<Longrightarrow>
   list_all tier_keeps_None (snd (MultiLevelCache_get_from now higher lower k))"
proof (induction lower arbitrary: higher)
  case Nil
  then show ?case by simp
next
  case (Cons c lower)
  have next_tiers: "list_all tier_keeps_None ((higher @ [snd (tier_get now c k)]) @ lower)"
    using Cons.prems by (simp add: tier_keeps_None_get)
  have hit: "list_all tier_keeps_None
      (map (\<lambda>h. snd (tier_set now h k v UNSET)) higher @ snd (tier_get now c k) # lower)" for v
    using Cons.prems by (auto simp add: list_all_iff tier_keeps_None_get tier_keeps_None_set)
  show ?case
    using Cons.IH[OF next_tiers] hit
    by (cases "tier_get now c k") (auto split: sum.splits)
qed

lemma backend_keeps_None_get:
  "backend_keeps_None b \<Longrightarrow> backend_keeps_None (snd (backend_get t b k))"
proof (cases b)
  case (Single c)
  assume "backend_keeps_None b"
  with Single show ?thesis
    by (simp add: backend_keeps_None_def case_prod_beta tier_keeps_None_get)
next
  case (MultiLevel cs)
  assume "backend_keeps_None b"
  with MultiLevel have "list_all tier_keeps_None ([] @ cs)" by (simp add: backend_keeps_None_def)
  from MultiLevelCache_get_from_keeps_None[OF this] MultiLevel show ?thesis
    by (simp add: backend_keeps_None_def case_prod_beta MultiLevelCache_get_def)
qed

lemma is_hit_CacheManager_get:
  "is_hit (fst (CacheManager_get t m k name)) =
     (case get_backend m name of Inl e \<Rightarrow> False | Inr c \<Rightarrow> is_hit (fst (backend_get t c k)))"
  by (cases "get_backend m name")
     (auto simp: CacheManager_get_def is_hit_def split: prod.splits sum.splits)

lemma get_backend_put: "get_backend (put_backend m name b) name = Inr b"
  by (simp add: get_backend_def put_backend_def split: option.splits)

lemma get_backend_stats:
  "get_backend (m\<lparr>hits := h\<rparr>) name = get_backend m name"
  "get_backend (m\<lparr>misses := h\<rparr>) name = get_backend m name"
  "get_backend (m\<lparr>sets := h\<rparr>) name = get_backend m name"
  by (simp_all add: get_backend_def split: option.splits)

lemma get_backend_after_get:
  "get_backend (snd (CacheManager_get t m k name)) name =
     (case get_backend m name of Inl e \<Rightarrow> Inl e | Inr c \<Rightarrow> Inr (snd (backend_get t c k)))"
  by (cases "get_backend m name")
     (auto simp: CacheManager_get_def get_backend_put get_backend_stats
        split: prod.splits sum.splits)

lemma get_backend_after_set:
  "get_backend (snd (CacheManager_set t m k v ttl name)) name =
     (case get_backend m name of
        Inl e \<Rightarrow> Inl e
      | Inr c \<Rightarrow> Inr (snd (backend_set t c k v (Ttl ttl))))"
  by (cases "get_backend m name")
     (auto simp: CacheManager_set_def get_backend_put get_backend_stats
        split: prod.splits sum.splits)

lemma no_hit_after_store_None:
  assumes "\<And>b. get_backend m name = Inr b \<Longrightarrow> backend_keeps_None b"
  shows "\<not> is_hit (fst (CacheManager_get t3
            (snd (CacheManager_set t2 (snd (CacheManager_get t1 m k name)) k PyNone ttl name))
            k name))"
proof (cases "get_backend m name")
  case (Inl e)
  then show ?thesis
    by (simp add: is_hit_CacheManager_get get_backend_after_set get_backend_after_get)
next
  case (Inr c)
  hence "backend_keeps_None (snd (backend_get t1 c k))"
    by (intro backend_keeps_None_get assms)
  from backend_get_after_set_None[OF this] Inr show ?thesis
    by (simp add: is_hit_CacheManager_get get_backend_after_set get_backend_after_get)
qed

lemma cache_result_ran:
  "fst (snd (cache_result ttl key_func name gen func t_get t_set m args)) =
     (\<not> is_hit (fst (CacheManager_get t_get m
         (case key_func of Some kf \<Rightarrow> kf args | None \<Rightarrow> gen args) name)))"
  by (simp add: cache_result_def Let_def is_hit_def split: sum.splits)

lemma cache_result_manager:
  assumes "fst (snd (cache_result ttl key_func name gen func t_get t_set m args))"
    and "func args = Inr r"
  shows "snd (snd (cache_result ttl key_func name gen func t_get t_set m args)) =
     snd (CacheManager_set t_set
        (snd (CacheManager_get t_get m (case key_func of Some kf \<Rightarrow> kf args | None \<Rightarrow> gen args) name))
        (case key_func of Some kf \<Rightarrow> kf args | None \<Rightarrow> gen args) r ttl name)"
  using assms by (simp add: cache_result_def Let_def split: sum.splits if_splits)

lemma cache_result_value:
  "fst (snd (cache_result ttl key_func name gen func t_get t_set m args)) \<Longrightarrow>
   fst (cache_result ttl key_func name gen func t_get t_set m args) = func args"
  by (simp add: cache_result_def Let_def split: sum.splits if_splits)

lemma None_result_runs_again:
  assumes keeps: "\<And>b. get_backend m name = Inr b \<Longrightarrow> backend_keeps_None b"
    and res: "func args = Inr PyNone"
    and ran: "fst (snd (cache_result ttl key_func name gen func t1 t2 m args))"
  shows "fst (snd (cache_result ttl key_func name gen func t3 t4
            (snd (snd (cache_result ttl key_func name gen func t1 t2 m args))) args))"
  unfolding cache_result_manager[OF ran res] cache_result_ran
  using keeps by (rule no_hit_after_store_None)

text \<open>
  C10 (as stated, refuted): the claim says that after \<open>set(k, None)\<close> \<open>exists(k)\<close> is false
  on every backend. On a \<open>MemoryCache\<close> \<open>exists\<close> tests the presence of the entry, not
  its value: after \<open>set("a", None)\<close>, \<open>exists("a")\<close> is \<open>True\<close> (the test
  \<open>test_cache_none_values\<close> asserts it).
\<close>

theorem exists_true_after_set_None:
  "fst (MemoryCache_exists 1
         (MemoryCache_set 0 \<lparr>max_size = 1000, default_ttl = None, cache = [], access_times = []\<rparr>
            ''a'' (PyNone :: nat pyval) UNSET) ''a'') = True"
  by (simp add: MemoryCache_exists_def MemoryCache_set_def is_expired_def)

text \<open>
  C10 (amended): a stored \<open>None\<close> is returned by \<open>get\<close> as the absent signal on every
  backend: after \<open>set(k, None)\<close>, \<open>get(k)\<close> returns \<open>None\<close> on a \<open>MemoryCache\<close>, on a
  \<open>FileCache\<close> and on a \<open>MultiLevelCache\<close> (the serializers round-tripping \<open>None\<close>).
  \<open>exists(k)\<close> is then \<open>False\<close> on a \<open>FileCache\<close> and on a \<open>MultiLevelCache\<close>; on a
  \<open>MemoryCache\<close> it is \<open>True\<close> until the entry expires. A \<open>MultiLevelCache.get\<close> that
  gets \<open>None\<close> from a tier goes on with the lower tiers. \<open>CacheManager.get\<close> counts a
  \<open>None\<close> as a miss and not as a hit. A function decorated with \<open>cache_result\<close> that
  returned \<open>None\<close> in a call that ran it is run again by the next call, which returns
  \<open>None\<close> again.
\<close>

theorem None_is_absence:
  assumes "round_trips fc PyNone"
    and "list_all tier_keeps_None caches"
    and "\<And>b. get_backend manager name = Inr b \<Longrightarrow> backend_keeps_None b"
  shows
    "fst (MemoryCache_get t' (MemoryCache_set t c k PyNone ttl) k) = PyNone \<and>
     fst (MemoryCache_exists t' (MemoryCache_set t c k PyNone ttl) k) =
       (case (case ttl of UNSET \<Rightarrow> default_ttl c | Ttl n \<Rightarrow> n) of
          None \<Rightarrow> True
        | Some n \<Rightarrow> t' \<le> t + of_int n) \<and>
     fst (FileCache_get t' (snd (FileCache_set t fc k PyNone ottl)) k) = Inr PyNone \<and>
     fst (FileCache_exists t' (snd (FileCache_set t fc k PyNone ottl)) k) = Inr False \<and>
     fst (MultiLevelCache_get t' (MultiLevelCache_set t caches k PyNone ottl) k) = PyNone \<and>
     fst (MultiLevelCache_exists t' (MultiLevelCache_set t caches k PyNone ottl) k) = False \<and>
     (fst (tier_get t' tier k) = Inr PyNone \<longrightarrow>
        MultiLevelCache_get_from t' higher (tier # lower) k =
        MultiLevelCache_get_from t' (higher @ [snd (tier_get t' tier k)]) lower k) \<and>
     (fst (CacheManager_get t' manager k name) = Inr PyNone \<longrightarrow>
        misses (snd (CacheManager_get t' manager k name)) = misses manager + 1 \<and>
        hits (snd (CacheManager_get t' manager k name)) = hits manager) \<and>
     (func args = Inr PyNone \<and>
      fst (snd (cache_result ottl key_func name gen func ta tb manager args)) \<longrightarrow>
        fst (snd (cache_result ottl key_func name gen func tc td
               (snd (snd (cache_result ottl key_func name gen func ta tb manager args))) args)) \<and>
        fst (cache_result ottl key_func name gen func tc td
               (snd (snd (cache_result ottl key_func name gen func ta tb manager args))) args)
          = Inr PyNone)"
proof -
  have file_get: "fst (FileCache_get t' (snd (FileCache_set t fc k PyNone ottl)) k) = Inr PyNone"
    using assms(1) by (rule FileCache_get_after_set_None)
  have file_exists: "fst (FileCache_exists t' (snd (FileCache_set t fc k PyNone ottl)) k) = Inr False"
    using file_get
    by (cases "FileCache_get t' (snd (FileCache_set t fc k PyNone ottl)) k")
       (simp add: FileCache_exists_def)
  have multi_get:
    "fst (MultiLevelCache_get t' (MultiLevelCache_set t caches k PyNone ottl) k) = PyNone"
    using assms(2) by (rule MultiLevelCache_get_after_set_None)
  have multi_exists:
    "fst (MultiLevelCache_exists t' (MultiLevelCache_set t caches k PyNone ottl) k) = False"
    using multi_get by (simp add: MultiLevelCache_exists_def case_prod_beta)
  have searching: "fst (tier_get t' tier k) = Inr PyNone \<longrightarrow>
        MultiLevelCache_get_from t' higher (tier # lower) k =
        MultiLevelCache_get_from t' (higher @ [snd (tier_get t' tier k)]) lower k"
    by (cases "tier_get t' tier k") auto
  have counted: "fst (CacheManager_get t' manager k name) = Inr PyNone \<longrightarrow>
        misses (snd (CacheManager_get t' manager k name)) = misses manager + 1 \<and>
        hits (snd (CacheManager_get t' manager k name)) = hits manager"
    by (cases "get_backend manager name")
       (auto simp: CacheManager_get_def put_backend_def split: prod.splits sum.splits option.splits)
  have again: "func args = Inr PyNone \<and>
      fst (snd (cache_result ottl key_func name gen func ta tb manager args)) \<longrightarrow>
        fst (snd (cache_result ottl key_func name gen func tc td
               (snd (snd (cache_result ottl key_func name gen func ta tb manager args))) args)) \<and>
        fst (cache_result ottl key_func name gen func tc td
               (snd (snd (cache_result ottl key_func name gen func ta tb manager args))) args)
          = Inr PyNone"
  proof (intro impI, elim conjE)
    assume res: "func args = Inr PyNone"
      and ran: "fst (snd (cache_result ottl key_func name gen func ta tb manager args))"
    have ran2: "fst (snd (cache_result ottl key_func name gen func tc td
               (snd (snd (cache_result ottl key_func name gen func ta tb manager args))) args))"
      using assms(3) res ran by (rule None_result_runs_again)
    from cache_result_value[OF ran2] res ran2
    show "fst (snd (cache_result ottl key_func name gen func tc td
               (snd (snd (cache_result ottl key_func name gen func ta tb manager args))) args)) \<and>
        fst (cache_result ottl key_func name gen func tc td
               (snd (snd (cache_result ottl key_func name gen func ta tb manager args))) args)
          = Inr PyNone"
      by simp
  qed
  show ?thesis
    using MemoryCache_get_after_set_None[of t' t c k ttl]
      MemoryCache_exists_after_set[of t' t c k PyNone ttl]
      file_get file_exists multi_get multi_exists searching counted again
    by (intro conjI)
qed

theorem None_is_absence_witness:
  "round_trips (sample_FileCache [] (Some 5) :: (nat, nat pyval) FileCache) PyNone \<and>
   list_all tier_keeps_None
     [Memory fresh_MemoryCache, File (sample_FileCache [] None), Failing] \<and>
   backend_keeps_None (default_backend sample_manager) \<and>
   fst (MemoryCache_get 1 (MemoryCache_set 0 fresh_MemoryCache ''a'' PyNone UNSET) ''a'') = PyNone \<and>
   fst (MemoryCache_exists 1 (MemoryCache_set 0 fresh_MemoryCache ''a'' PyNone UNSET) ''a'') = True \<and>
   fst (FileCache_get 1
          (snd (FileCache_set 0 (sample_FileCache [] (Some 5) :: (nat, nat pyval) FileCache)
                  ''a'' PyNone None)) ''a'') = Inr PyNone \<and>
   fst (FileCache_exists 1
          (snd (FileCache_set 0 (sample_FileCache [] (Some 5) :: (nat, nat pyval) FileCache)
                  ''a'' PyNone None)) ''a'') = Inr False \<and>
   fst (MultiLevelCache_get 1
          (MultiLevelCache_set 0
             [Memory fresh_MemoryCache, File (sample_FileCache [] None), Failing]
             ''a'' PyNone None) ''a'') = PyNone \<and>
   fst (MultiLevelCache_exists 1
          (MultiLevelCache_set 0
             [Memory fresh_MemoryCache, File (sample_FileCache [] None), Failing]
             ''a'' PyNone None) ''a'') = False \<and>
   fst (tier_get 1 None_under_a ''a'') = Inr PyNone \<and>
   fst (MultiLevelCache_get_from 1 []
          [None_under_a, Memory (MemoryCache_set 0 fresh_MemoryCache ''a'' (Val 5) UNSET)] ''a'')
     = Val 5 \<and>
   fst (CacheManager_get 1 sample_manager ''a'' None) = Inr PyNone \<and>
   misses (snd (CacheManager_get 1 sample_manager ''a'' None)) = 1 \<and>
   hits (snd (CacheManager_get 1 sample_manager ''a'' None)) = 0 \<and>
   fst (snd (cache_result None None None (\<lambda>x. ''a'') (\<lambda>x. Inr PyNone) 1 2
               sample_manager (3::nat))) \<and>
   fst (snd (cache_result None None None (\<lambda>x. ''a'') (\<lambda>x. Inr PyNone) 3 4
               (snd (snd (cache_result None None None (\<lambda>x. ''a'') (\<lambda>x. Inr PyNone) 1 2
                            sample_manager (3::nat)))) (3::nat))) \<and>
   fst (cache_result None None None (\<lambda>x. ''a'') (\<lambda>x. Inr PyNone) 3 4
          (snd (snd (cache_result None None None (\<lambda>x. ''a'') (\<lambda>x. Inr PyNone) 1 2
                       sample_manager (3::nat)))) (3::nat)) = Inr PyNone"
proof -
  have h1: "round_trips (sample_FileCache [] (Some 5) :: (nat, nat pyval) FileCache) PyNone"
    by (simp add: round_trips_def sample_FileCache_def)
  have h2: "list_all tier_keeps_None
     [Memory fresh_MemoryCache, File (sample_FileCache [] None), Failing]"
    by (simp add: round_trips_def sample_FileCache_def)
  have h3: "backend_keeps_None (default_backend sample_manager)"
    by (simp add: backend_keeps_None_def sample_manager_def None_under_a_def)
  have h3': "\<And>b. get_backend sample_manager None = Inr b \<Longrightarrow> backend_keeps_None b"
    using h3 by (simp add: get_backend_def)
  have look: "fst (tier_get 1 None_under_a ''a'') = Inr PyNone"
    by (simp add: None_under_a_def fresh_MemoryCache_def MemoryCache_get_def MemoryCache_set_def
          is_expired_def)
  have miss: "fst (CacheManager_get 1 sample_manager ''a'' None) = Inr PyNone"
    by (simp add: sample_manager_def None_under_a_def fresh_MemoryCache_def
          CacheManager_get_def get_backend_def put_backend_def MemoryCache_get_def
          MemoryCache_set_def is_expired_def)
  have ran: "fst (snd (cache_result None None None (\<lambda>x. ''a'') (\<lambda>x. Inr PyNone) 1 2
               sample_manager (3::nat)))"
    by (simp add: cache_result_ran is_hit_def miss)
  note inst = None_is_absence[where fc = "sample_FileCache [] (Some 5) :: (nat, nat pyval) FileCache"
      and caches = "[Memory fresh_MemoryCache, File (sample_FileCache [] None), Failing]"
      and manager = sample_manager and name = None
      and t' = 1 and t = 0 and c = fresh_MemoryCache
      and k = "''a''" and ttl = UNSET and ottl = None and tier = None_under_a and higher = "[]"
      and lower = "[Memory (MemoryCache_set 0 fresh_MemoryCache ''a'' (Val 5) UNSET)]"
      and func = "\<lambda>x. Inr PyNone" and args = "3::nat" and key_func = None
      and gen = "\<lambda>x. ''a''" and ta = 1 and tb = 2 and tc = 3 and td = 4,
      OF h1 h2 h3']
  have low: "fst (MultiLevelCache_get_from 1 [snd (tier_get 1 None_under_a ''a'')]
     [Memory (MemoryCache_set 0 fresh_MemoryCache ''a'' (Val 5) UNSET)] ''a'') = Val 5"
    by (simp add: None_under_a_def fresh_MemoryCache_def MemoryCache_get_def MemoryCache_set_def
          is_expired_def)
  show ?thesis
    using inst by (simp add: sample_manager_def None_under_a_def fresh_MemoryCache_def
          sample_FileCache_def md5_sample_def
          MemoryCache_get_def MemoryCache_set_def MemoryCache_exists_def is_expired_def
          FileCache_get_def FileCache_set_def FileCache_exists_def get_cache_file_def
          MultiLevelCache_get_def MultiLevelCache_set_def MultiLevelCache_exists_def
          CacheManager_get_def CacheManager_set_def get_backend_def put_backend_def
          cache_result_def optional_ttl_def Let_def round_trips_def backend_keeps_None_def)
qed

end
